theory Spec2Isabelle
  imports Complex_Main "HOL-Library.Log_Nat"
begin

section \<open>Liveness check of src/utils/liveness.ts\<close>

text \<open>
  A shallow embedding of \<^verbatim>\<open>src/src/utils/liveness.ts\<close>: the face locator
  \<^verbatim>\<open>detectFaceBox\<close>, the capture step \<^verbatim>\<open>captureToCanvas\<close>, the evaluators
  \<^verbatim>\<open>waitForFacePresent\<close>, \<^verbatim>\<open>checkMovement\<close>, \<^verbatim>\<open>checkBlink\<close> and the sequence
  \<^verbatim>\<open>runLivenessSequence\<close>.

  Conventions of the model.
  \<^item> A JavaScript number is a rational, with \<open>NaN\<close> written out as \<open>None\<close> (type
    \<open>number\<close>). The arithmetic is the arithmetic of IEEE 754 doubles: an operation whose
    result need not be a double, and every decimal literal, is rounded to the nearest
    double, ties to even (\<open>fl64\<close>). Whole numbers (indices, counters, times, sums of
    bytes) are doubles and are computed without rounding. The only quotients of the
    source whose divisor can be zero are \<open>sum / count\<close> and \<open>sumSq / count\<close> of an empty
    region, where the dividend is zero too: \<open>0 / 0\<close> is \<open>NaN\<close>.
  \<^item> A read of a typed array past its end gives \<open>undefined\<close>, which arithmetic turns
    into \<open>NaN\<close>: \<open>image_at\<close> returns \<open>None\<close> there.
  \<^item> An exception (a rejected promise) is a value \<open>Inl err\<close> of a sum type.
  \<^item> The browser is a parameter (record \<open>platform\<close>): the capability flag, the
    experimental \<^verbatim>\<open>FaceDetector\<close>, the video element's frame at each instant and the
    lateness of timers. \<^verbatim>\<open>Date.now()\<close> is the field \<open>now\<close> of the state; only timers
    advance it.
\<close>

subsection \<open>Numbers with NaN\<close>

text \<open>The operations without rounding; the doubles below round what they give.\<close>

type_synonym number = "rat option"

definition num_add :: "number \<Rightarrow> number \<Rightarrow> number" where
  "num_add a b = (case (a, b) of (Some p, Some q) \<Rightarrow> Some (p + q) | _ \<Rightarrow> None)"

definition num_sub :: "number \<Rightarrow> number \<Rightarrow> number" where
  "num_sub a b = (case (a, b) of (Some p, Some q) \<Rightarrow> Some (p - q) | _ \<Rightarrow> None)"

definition num_mul :: "number \<Rightarrow> number \<Rightarrow> number" where
  "num_mul a b = (case (a, b) of (Some p, Some q) \<Rightarrow> Some (p * q) | _ \<Rightarrow> None)"

text \<open>Division: a zero divisor gives \<open>NaN\<close> (the source only ever divides zero by zero).\<close>

definition num_div :: "number \<Rightarrow> number \<Rightarrow> number" where
  "num_div a b =
     (case (a, b) of (Some p, Some q) \<Rightarrow> (if q = 0 then None else Some (p / q)) | _ \<Rightarrow> None)"

text \<open>\<^verbatim>\<open>a > b\<close>: false as soon as one side is \<open>NaN\<close>.\<close>

definition num_gt :: "number \<Rightarrow> number \<Rightarrow> bool" where
  "num_gt a b = (case (a, b) of (Some p, Some q) \<Rightarrow> q < p | _ \<Rightarrow> False)"

text \<open>\<^verbatim>\<open>Math.abs(a - b)\<close> on two numbers.\<close>

definition num_absdiff :: "number \<Rightarrow> number \<Rightarrow> number" where
  "num_absdiff a b = (case (a, b) of (Some p, Some q) \<Rightarrow> Some \<bar>p - q\<bar> | _ \<Rightarrow> None)"

subsection \<open>Doubles\<close>

text \<open>
  A double is a rational \<open>m * 2 ^ e\<close> with \<open>\<bar>m\<bar> < 2 ^ 53\<close>. The exponent range is not
  limited here: the sides of a canvas are below \<open>2 ^ 32\<close> and its bytes at most 255, and on
  such a frame no value that \<^verbatim>\<open>detectFaceBox\<close> computes overflows or is rounded as a
  subnormal. The same is assumed of the boxes that a \<^verbatim>\<open>FaceDetector\<close> returns.

  \<open>pow2 e\<close> is \<open>2 ^ e\<close> for an integer \<open>e\<close>, and \<open>expo x\<close> the exponent of a positive
  \<open>x\<close>: \<open>2 ^ expo x \<le> x < 2 ^ (expo x + 1)\<close>.
\<close>

definition pow2 :: "int \<Rightarrow> rat" where
  "pow2 e = (if 0 \<le> e then 2 ^ nat e else 1 / 2 ^ nat (- e))"

definition expo :: "rat \<Rightarrow> int" where
  "expo x = (if 1 \<le> x then bitlen \<lfloor>x\<rfloor> - 1 else - bitlen (\<lceil>1 / x\<rceil> - 1))"

text \<open>The nearest integer, the even one of two that are equally near.\<close>

definition round_even :: "rat \<Rightarrow> int" where
  "round_even m =
     (let f = \<lfloor>m\<rfloor>; r = m - of_int f
      in if r < 1 / 2 then f else if 1 / 2 < r then f + 1 else if even f then f else f + 1)"

text \<open>The nearest double: 53 significant bits, ties to even.\<close>

definition fl64 :: "rat \<Rightarrow> rat" where
  "fl64 x =
     (if x = 0 then 0
      else let q = pow2 (expo \<bar>x\<bar> - 52) in of_int (round_even (x / q)) * q)"

text \<open>\<^verbatim>\<open>a + b\<close>, \<^verbatim>\<open>a - b\<close>, \<^verbatim>\<open>a * b\<close> and \<^verbatim>\<open>a / b\<close> on doubles.\<close>

definition dbl_add :: "number \<Rightarrow> number \<Rightarrow> number" where
  "dbl_add a b = map_option fl64 (num_add a b)"

definition dbl_sub :: "number \<Rightarrow> number \<Rightarrow> number" where
  "dbl_sub a b = map_option fl64 (num_sub a b)"

definition dbl_mul :: "number \<Rightarrow> number \<Rightarrow> number" where
  "dbl_mul a b = map_option fl64 (num_mul a b)"

definition dbl_div :: "number \<Rightarrow> number \<Rightarrow> number" where
  "dbl_div a b = map_option fl64 (num_div a b)"

subsection \<open>Data\<close>

text \<open>\<^verbatim>\<open>type FaceBox = { x: number; y: number; width: number; height: number }\<close>\<close>

record FaceBox =
  box_x :: rat
  box_y :: rat
  box_width :: rat
  box_height :: rat

text \<open>\<^verbatim>\<open>type Challenge = 'prepare' | 'blink' | 'turn-left' | 'turn-right'\<close>\<close>

datatype Challenge = Prepare | Blink | TurnLeft | TurnRight

text \<open>The string each value of the union is.\<close>

fun challengeName :: "Challenge \<Rightarrow> string" where
  "challengeName Prepare = ''prepare''"
| "challengeName Blink = ''blink''"
| "challengeName TurnLeft = ''turn-left''"
| "challengeName TurnRight = ''turn-right''"

text \<open>The elements of \<^verbatim>\<open>LivenessResult['steps']\<close>; the source never sets \<^verbatim>\<open>details\<close>.\<close>

record Step =
  name :: string
  passed :: bool
  details :: "string option"

record LivenessResult =
  alive :: bool
  reason :: "string option"
  steps :: "Step list"

text \<open>
  An \<^verbatim>\<open>HTMLCanvasElement\<close>: whether \<^verbatim>\<open>getContext('2d')\<close> gives a context, its size, the
  RGBA bytes of its bitmap (one natural per byte, row by row) and its origin-clean flag,
  false once something of another origin has been drawn on it.
\<close>

record canvas =
  cv_ctx :: bool
  cv_width :: nat
  cv_height :: nat
  cv_data :: "nat list"
  cv_clean :: bool

text \<open>\<^verbatim>\<open>ImageData\<close>, as \<^verbatim>\<open>getImageData\<close> returns it.\<close>

record ImageData =
  img_width :: nat
  img_height :: nat
  img_data :: "nat list"

text \<open>
  The video element at one instant: \<^verbatim>\<open>videoWidth\<close>, \<^verbatim>\<open>videoHeight\<close> and the bytes
  that \<^verbatim>\<open>drawImage(video, 0, 0, w, h)\<close> leaves on the canvas.
\<close>

record video_frame =
  videoWidth :: nat
  videoHeight :: nat
  rendered :: "nat list"

datatype error = IndexSizeError | SecurityError | TypeError | DetectorFailure

text \<open>
  The browser. \<open>faceDetector\<close> is \<^verbatim>\<open>supported.faceDetector\<close>. \<open>detect\<close> is the whole
  body of the \<^verbatim>\<open>try\<close> block up to \<^verbatim>\<open>detector.detect(bitmap)\<close>: \<open>Inl\<close> when anything in
  it throws, else the bounding boxes of the faces found. \<open>video\<close> gives the video element
  at a time in milliseconds. \<open>timerLag t\<close> is how late a timer armed at \<open>t\<close> fires.
\<close>

record platform =
  faceDetector :: bool
  detect :: "canvas \<Rightarrow> error + FaceBox list"
  video :: "int \<Rightarrow> video_frame"
  timerLag :: "int \<Rightarrow> nat"

subsection \<open>detectFaceBox\<close>

text \<open>
  \<^verbatim>\<open>image[i]\<close> on a \<^verbatim>\<open>Uint8ClampedArray\<close>. Pixel coordinates and indices are integers
  (JavaScript numbers holding integers).
\<close>

definition image_at :: "nat list \<Rightarrow> int \<Rightarrow> number" where
  "image_at im i = (if 0 \<le> i \<and> i < int (length im) then Some (of_nat (im ! nat i)) else None)"

text \<open>
  \<^verbatim>\<open>ctx.getImageData(0, 0, width, height)\<close>, by the HTML standard: an \<^verbatim>\<open>IndexSizeError\<close>
  when the width or the height asked for is zero, else a \<^verbatim>\<open>SecurityError\<close> when the
  canvas is not origin-clean. Without a context (the \<^verbatim>\<open>!\<close> of \<^verbatim>\<open>checkBlink\<close>) the call is
  on \<^verbatim>\<open>null\<close>, a \<^verbatim>\<open>TypeError\<close>.
\<close>

definition getImageData :: "canvas \<Rightarrow> error + ImageData" where
  "getImageData cv =
     (if \<not> cv_ctx cv then Inl TypeError
      else if cv_width cv = 0 \<or> cv_height cv = 0 then Inl IndexSizeError
      else if \<not> cv_clean cv then Inl SecurityError
      else Inr \<lparr>img_width = cv_width cv, img_height = cv_height cv, img_data = cv_data cv\<rparr>)"

record region_stats =
  mean :: number
  variance :: number

text \<open>
  The body of the two loops of \<^verbatim>\<open>region\<close> (lines 41 to 48); \<open>im\<close> is the source's
  \<^verbatim>\<open>image\<close> and \<open>sumV\<close> its \<^verbatim>\<open>sum\<close>.
\<close>

definition region_pixel ::
  "nat list \<Rightarrow> int \<Rightarrow> int \<Rightarrow> int \<Rightarrow> number \<times> number \<times> nat \<Rightarrow> number \<times> number \<times> nat" where
  "region_pixel im width y x acc =
     (case acc of (sumV, sumSq, count) \<Rightarrow>
        let i = (y * width + x) * 4;
            r = image_at im i;
            g = image_at im (i + 1);
            b = image_at im (i + 2);
            v = dbl_div (dbl_add (dbl_add r g) b) (Some 3)
        in (dbl_add sumV v, dbl_add sumSq (dbl_mul v v), count + 1))"

text \<open>
  \<^verbatim>\<open>region(x0, y0, w, h)\<close> (lines 35 to 54), closed over \<open>im\<close> and \<open>width\<close>. The loop
  \<^verbatim>\<open>for (let y = y0; y < y0 + h; y++)\<close> runs over \<open>[y0..y0 + h - 1]\<close>. The counter
  \<open>count\<close> is a whole number, exact as a double.
\<close>

definition region :: "nat list \<Rightarrow> int \<Rightarrow> int \<Rightarrow> int \<Rightarrow> int \<Rightarrow> int \<Rightarrow> region_stats" where
  "region im width x0 y0 w h =
     (case fold (\<lambda>y. fold (region_pixel im width y) [x0 .. x0 + w - 1]) [y0 .. y0 + h - 1]
             (Some 0, Some 0, 0) of
        (sumV, sumSq, count) \<Rightarrow>
          let m = dbl_div sumV (Some (of_nat count));
              var = dbl_sub (dbl_div sumSq (Some (of_nat count))) (dbl_mul m m)
          in \<lparr>mean = m, variance = var\<rparr>)"

text \<open>
  The naive fallback (lines 32 to 70), given what \<^verbatim>\<open>getImageData\<close> returned. The
  literals \<^verbatim>\<open>0.2\<close>, \<^verbatim>\<open>0.6\<close> and \<^verbatim>\<open>1.15\<close> are the doubles nearest to them.
\<close>

definition naiveDetection :: "nat \<Rightarrow> nat \<Rightarrow> nat list \<Rightarrow> FaceBox option" where
  "naiveDetection width height im =
     (let cx = \<lfloor>fl64 (of_nat width * fl64 0.2)\<rfloor>;
          cy = \<lfloor>fl64 (of_nat height * fl64 0.2)\<rfloor>;
          cw = \<lfloor>fl64 (of_nat width * fl64 0.6)\<rfloor>;
          ch = \<lfloor>fl64 (of_nat height * fl64 0.6)\<rfloor>;
          center = region im (int width) cx cy cw ch;
          edges = [region im (int width) 0 0 cx (int height),
                   region im (int width) (cx + cw) 0 (int width - (cx + cw)) (int height),
                   region im (int width) 0 0 (int width) cy,
                   region im (int width) 0 (cy + ch) (int width) (int height - (cy + ch))];
          edgeVar = dbl_div (fold (\<lambda>e a. dbl_add a (variance e)) edges (Some 0))
                      (Some (of_nat (length edges)))
      in if num_gt (variance center) (dbl_mul edgeVar (Some (fl64 1.15)))
         then Some \<lparr>box_x = of_int cx, box_y = of_int cy,
                     box_width = of_int cw, box_height = of_int ch\<rparr>
         else None)"

text \<open>\<^verbatim>\<open>detectFaceBox(canvas)\<close> (lines 15 to 71).\<close>

definition detectFaceBox :: "platform \<Rightarrow> canvas \<Rightarrow> error + FaceBox option" where
  "detectFaceBox pf cv =
     (if \<not> cv_ctx cv then Inr None
      else case (if faceDetector pf
                 then (case detect pf cv of
                         Inr (face # _) \<Rightarrow> Some face
                       | _ \<Rightarrow> None)
                 else None) of
             Some box \<Rightarrow>
               Inr (Some \<lparr>box_x = box_x box, box_y = box_y box,
                          box_width = box_width box, box_height = box_height box\<rparr>)
           | None \<Rightarrow>
               (case getImageData cv of
                  Inl err \<Rightarrow> Inl err
                | Inr img \<Rightarrow> Inr (naiveDetection (img_width img) (img_height img) (img_data img))))"

subsection \<open>The state of a run\<close>

text \<open>
  What a run reads and writes: the clock, the canvas it draws on, and the challenges it
  has announced through \<^verbatim>\<open>onChallenge\<close>, oldest first (the calls are logged whether or
  not the host passed a listener).
\<close>

record world =
  now :: int
  cnv :: canvas
  notified :: "Challenge list"

text \<open>\<^verbatim>\<open>wait(ms)\<close>: the timer fires \<open>ms\<close> milliseconds later, or later still.\<close>

definition wait :: "platform \<Rightarrow> int \<Rightarrow> world \<Rightarrow> world" where
  "wait pf ms s = s\<lparr>now := now s + ms + int (timerLag pf (now s))\<rparr>"

text \<open>\<^verbatim>\<open>onChallenge?.(c)\<close>\<close>

definition onChallenge :: "Challenge \<Rightarrow> world \<Rightarrow> world" where
  "onChallenge c s = s\<lparr>notified := notified s @ [c]\<rparr>"

text \<open>
  \<^verbatim>\<open>captureToCanvas(video, canvas)\<close> (lines 73 to 81), on the video at one instant.
  Assigning the width resets the bitmap and its origin-clean flag, and the video drawn
  next is the camera stream that \<^verbatim>\<open>useCamera\<close> attaches (\<^verbatim>\<open>getUserMedia\<close>), which is
  origin-clean.
\<close>

definition captureToCanvas :: "video_frame \<Rightarrow> canvas \<Rightarrow> canvas" where
  "captureToCanvas v cv =
     (if \<not> cv_ctx cv then cv
      else let w = (if videoWidth v = 0 then 640 else videoWidth v);
               h = (if videoHeight v = 0 then 480 else videoHeight v)
           in cv\<lparr>cv_width := w, cv_height := h, cv_data := rendered v, cv_clean := True\<rparr>)"

text \<open>\<^verbatim>\<open>await captureToCanvas(video, canvas)\<close> inside a run: the video as it is now.\<close>

definition capture :: "platform \<Rightarrow> world \<Rightarrow> world" where
  "capture pf s = s\<lparr>cnv := captureToCanvas (video pf (now s)) (cnv s)\<rparr>"

subsection \<open>The evaluators\<close>

text \<open>
  \<^verbatim>\<open>waitForFacePresent(maxMs)\<close> (lines 94 to 103): the loop, with \<open>start\<close> fixed at
  entry.
\<close>

function waitForFacePresent_loop ::
  "platform \<Rightarrow> int \<Rightarrow> int \<Rightarrow> world \<Rightarrow> error + (bool \<times> world)" where
  "waitForFacePresent_loop pf maxMs start s =
     (if now s - start < maxMs then
        (let s1 = capture pf s in
         case detectFaceBox pf (cnv s1) of
           Inl err \<Rightarrow> Inl err
         | Inr (Some box) \<Rightarrow> Inr (True, s1)
         | Inr None \<Rightarrow> waitForFacePresent_loop pf maxMs start (wait pf 200 s1))
      else Inr (False, s))"
  by pat_completeness auto
termination
  by (relation "measure (\<lambda>(pf, maxMs, start, s). nat (start + maxMs - now s))")
     (auto simp: wait_def capture_def)

declare waitForFacePresent_loop.simps [simp del]

definition waitForFacePresent :: "platform \<Rightarrow> int \<Rightarrow> world \<Rightarrow> error + (bool \<times> world)" where
  "waitForFacePresent pf maxMs s = waitForFacePresent_loop pf maxMs (now s) s"

text \<open>\<^verbatim>\<open>direction: 'left' | 'right'\<close>\<close>

datatype direction = Left | Right

text \<open>
  \<^verbatim>\<open>checkMovement(direction)\<close> (lines 105 to 114). The difference \<open>dx\<close> of the two
  abscissas is a difference of doubles, rounded.
\<close>

definition checkMovement :: "platform \<Rightarrow> direction \<Rightarrow> world \<Rightarrow> error + (bool \<times> world)" where
  "checkMovement pf dir s =
     (let s1 = capture pf s in
      case detectFaceBox pf (cnv s1) of
        Inl err \<Rightarrow> Inl err
      | Inr box1 \<Rightarrow>
          (let s2 = capture pf (wait pf 700 s1) in
           case detectFaceBox pf (cnv s2) of
             Inl err \<Rightarrow> Inl err
           | Inr box2 \<Rightarrow>
               (case (box1, box2) of
                  (Some b1, Some b2) \<Rightarrow>
                    (let dx = fl64 (box_x b2 - box_x b1)
                     in Inr (if dir = Left then dx < - 10 else dx > 10, s2))
                | _ \<Rightarrow> Inr (False, s2))))"

text \<open>
  \<^verbatim>\<open>computeEyeBand(box)\<close> (lines 118 to 124): \<open>(ex, ey, ew, eh)\<close>. The product and the sum
  are rounded to doubles before \<^verbatim>\<open>Math.floor\<close>.
\<close>

definition computeEyeBand :: "FaceBox \<Rightarrow> int \<times> int \<times> int \<times> int" where
  "computeEyeBand box =
     (let ex = max 0 \<lfloor>box_x box\<rfloor>;
          ey = max 0 \<lfloor>fl64 (box_y box + fl64 (box_height box * fl64 0.25))\<rfloor>;
          ew = \<lfloor>box_width box\<rfloor>;
          eh = \<lfloor>fl64 (box_height box * fl64 0.25)\<rfloor>
      in (ex, ey, ew, eh))"

text \<open>
  The body of the two loops of \<^verbatim>\<open>diffInRegion\<close> (lines 132 to 138); \<open>totalN\<close> is
  the source's \<^verbatim>\<open>total\<close>. No rounding is written here: the differences and their sum
  are whole numbers, exact as doubles, and the tests \<^verbatim>\<open>d > 18\<close> and \<^verbatim>\<open>score > 0.06\<close> come
  out in doubles as they do on the exact quotients (for a band of fewer than \<open>2 ^ 50\<close>
  pixels).
\<close>

definition diff_pixel ::
  "ImageData \<Rightarrow> ImageData \<Rightarrow> int \<Rightarrow> int \<Rightarrow> int \<Rightarrow> nat \<times> nat \<Rightarrow> nat \<times> nat" where
  "diff_pixel a b w y x acc =
     (case acc of (totalN, changed) \<Rightarrow>
        let i = (y * w + x) * 4;
            dr = num_absdiff (image_at (img_data a) i) (image_at (img_data b) i);
            dg = num_absdiff (image_at (img_data a) (i + 1)) (image_at (img_data b) (i + 1));
            db = num_absdiff (image_at (img_data a) (i + 2)) (image_at (img_data b) (i + 2));
            d = num_div (num_add (num_add dr dg) db) (Some 3)
        in (totalN + 1, if num_gt d (Some 18) then changed + 1 else changed))"

text \<open>\<^verbatim>\<open>diffInRegion(a, b, rx, ry, rw, rh)\<close> (lines 126 to 142).\<close>

definition diffInRegion :: "ImageData \<Rightarrow> ImageData \<Rightarrow> int \<Rightarrow> int \<Rightarrow> int \<Rightarrow> int \<Rightarrow> rat" where
  "diffInRegion a b rx ry rw rh =
     (case fold (\<lambda>y. fold (diff_pixel a b (int (img_width a)) y) [rx .. rx + rw - 1])
             [ry .. ry + rh - 1] (0, 0) of
        (totalN, changed) \<Rightarrow> if totalN = 0 then 0 else of_nat changed / of_nat totalN)"

text \<open>\<^verbatim>\<open>checkBlink()\<close> (lines 116 to 164).\<close>

definition checkBlink :: "platform \<Rightarrow> world \<Rightarrow> error + (bool \<times> world)" where
  "checkBlink pf s =
     (let s1 = capture pf s in
      case detectFaceBox pf (cnv s1) of
        Inl err \<Rightarrow> Inl err
      | Inr None \<Rightarrow> Inr (False, s1)
      | Inr (Some firstBox) \<Rightarrow>
          (case computeEyeBand firstBox of (ex, ey, ew, eh) \<Rightarrow>
            (case getImageData (cnv s1) of
               Inl err \<Rightarrow> Inl err
             | Inr a \<Rightarrow>
                 (let s2 = capture pf (wait pf 140 s1) in
                  case getImageData (cnv s2) of
                    Inl err \<Rightarrow> Inl err
                  | Inr b \<Rightarrow>
                      (let score1 = diffInRegion a b ex ey ew eh;
                           s3 = capture pf (wait pf 140 s2)
                       in case getImageData (cnv s3) of
                            Inl err \<Rightarrow> Inl err
                          | Inr c \<Rightarrow>
                              (let score2 = diffInRegion b c ex ey ew eh;
                                   score = max score1 score2
                               in Inr (score > 0.06, s3)))))))"

subsection \<open>runLivenessSequence\<close>

text \<open>
  One turn of the \<^verbatim>\<open>while\<close> loop's three tests (lines 179 to 181): the evaluator of
  \<open>ch\<close> assigns \<open>passed\<close>; for \<^verbatim>\<open>'prepare'\<close> no test matches and \<open>passed\<close> stays.
\<close>

definition attempt :: "platform \<Rightarrow> Challenge \<Rightarrow> bool \<Rightarrow> world \<Rightarrow> error + (bool \<times> world)" where
  "attempt pf ch p s =
     (case ch of
        Blink \<Rightarrow> checkBlink pf s
      | TurnLeft \<Rightarrow> checkMovement pf Left s
      | TurnRight \<Rightarrow> checkMovement pf Right s
      | Prepare \<Rightarrow> Inr (p, s))"

text \<open>
  The \<^verbatim>\<open>while (!passed && Date.now() < deadline)\<close> loop of one challenge (lines 178 to
  183), with \<open>deadline\<close> fixed at entry. It ends because a turn that fails waits 300 ms
  and no evaluator sets the clock back.
\<close>

function challengeLoop ::
  "platform \<Rightarrow> Challenge \<Rightarrow> int \<Rightarrow> bool \<Rightarrow> world \<Rightarrow> error + (bool \<times> world)" where
  "challengeLoop pf ch deadline p s =
     (if \<not> p \<and> now s < deadline then
        (case attempt pf ch p s of
           Inl err \<Rightarrow> Inl err
         | Inr (p1, s1) \<Rightarrow>
             challengeLoop pf ch deadline p1 (if \<not> p1 then wait pf 300 s1 else s1))
      else Inr (p, s))"
  by pat_completeness auto
termination
proof (relation "measure (\<lambda>(pf, ch, deadline, p, s). if p then 0 else 1 + nat (deadline - now s))")
  show "wf (measure (\<lambda>(pf, ch, deadline, p, s). if p then 0 else 1 + nat (deadline - now s)))"
    by simp
next
  fix pf ch deadline p s r p1 s1
  assume a: "\<not> p \<and> now s < deadline" "attempt pf ch p s = Inr r" "(p1, s1) = r"
  have "now s \<le> now s1"
  proof (cases ch)
    case Prepare
    with a show ?thesis by (auto simp: attempt_def)
  next
    case Blink
    with a have "checkBlink pf s = Inr (p1, s1)" by (simp add: attempt_def)
    then show ?thesis
      by (auto simp: checkBlink_def Let_def capture_def wait_def
               split: sum.splits option.splits prod.splits)
  next
    case TurnLeft
    with a have "checkMovement pf Left s = Inr (p1, s1)" by (simp add: attempt_def)
    then show ?thesis
      by (auto simp: checkMovement_def Let_def capture_def wait_def
               split: sum.splits option.splits prod.splits)
  next
    case TurnRight
    with a have "checkMovement pf Right s = Inr (p1, s1)" by (simp add: attempt_def)
    then show ?thesis
      by (auto simp: checkMovement_def Let_def capture_def wait_def
               split: sum.splits option.splits prod.splits)
  qed
  with a show "((pf, ch, deadline, p1, if \<not> p1 then wait pf 300 s1 else s1), pf, ch, deadline, p, s)
       \<in> measure (\<lambda>(pf, ch, deadline, p, s). if p then 0 else 1 + nat (deadline - now s))"
    by (auto simp: wait_def)
qed

declare challengeLoop.simps [simp del]

text \<open>\<^verbatim>\<open>{ name: ch, passed }\<close>, the entry that \<^verbatim>\<open>steps.push\<close> appends (lines 169 and 184).\<close>

definition logged :: "Challenge \<Rightarrow> bool \<Rightarrow> Step" where
  "logged ch p = \<lparr>name = challengeName ch, passed = p, details = None\<rparr>"

text \<open>
  The \<^verbatim>\<open>for (const ch of challenges)\<close> loop (lines 174 to 188) from the steps logged so
  far, with the final \<^verbatim>\<open>return { alive: true, steps }\<close>.
\<close>

fun runChallenges ::
  "platform \<Rightarrow> Challenge list \<Rightarrow> Step list \<Rightarrow> world \<Rightarrow> error + (LivenessResult \<times> world)" where
  "runChallenges pf [] sts s = Inr (\<lparr>alive = True, reason = None, steps = sts\<rparr>, s)"
| "runChallenges pf (ch # chs) sts s =
     (let s0 = onChallenge ch s;
          deadline = now s0 + 5000
      in case challengeLoop pf ch deadline False s0 of
           Inl err \<Rightarrow> Inl err
         | Inr (p, s1) \<Rightarrow>
             (let sts1 = sts @ [logged ch p]
              in if \<not> p
                 then Inr (\<lparr>alive = False,
                            reason = Some (''Falha no desafio: '' @ challengeName ch),
                            steps = sts1\<rparr>, s1)
                 else runChallenges pf chs sts1 s1))"

text \<open>
  The reason of line 170. A character is one UTF-16 code unit of the JavaScript string;
  \<open>CHR 0xE3\<close> is the a with tilde.
\<close>

definition noFaceText :: string where
  "noFaceText =
     ''Rosto n'' @ [CHR 0xE3] @ ''o detectado. Centralize seu rosto e tente novamente.''"

text \<open>\<^verbatim>\<open>const challenges: Challenge[] = ['blink', 'turn-left', 'turn-right']\<close>\<close>

definition challenges :: "Challenge list" where
  "challenges = [Blink, TurnLeft, TurnRight]"

text \<open>
  \<^verbatim>\<open>runLivenessSequence(video, canvas, onChallenge)\<close> (lines 83 to 189): the result and
  the state the run ends in.
\<close>

definition runLivenessSequence :: "platform \<Rightarrow> world \<Rightarrow> error + (LivenessResult \<times> world)" where
  "runLivenessSequence pf s =
     (let s0 = onChallenge Prepare s in
      case waitForFacePresent pf 5000 s0 of
        Inl err \<Rightarrow> Inl err
      | Inr (ready, s1) \<Rightarrow>
          (let sts = [logged Prepare ready]
           in if \<not> ready
              then Inr (\<lparr>alive = False, reason = Some noFaceText, steps = sts\<rparr>, s1)
              else runChallenges pf challenges sts s1))"

subsection \<open>What the specification measures\<close>

text \<open>
  The quantities that the specification names, defined from its words and not from the
  loops of the source; the properties below compare the two.

  The pixels \<open>(y, x)\<close> of a rectangle, row by row.
\<close>

definition rectangle :: "int \<Rightarrow> int \<Rightarrow> int \<Rightarrow> int \<Rightarrow> (int \<times> int) list" where
  "rectangle x0 y0 w h = List.product [y0 .. y0 + h - 1] [x0 .. x0 + w - 1]"

text \<open>The luminance of a pixel: the average of its R, G and B.\<close>

definition luminance :: "nat list \<Rightarrow> int \<Rightarrow> int \<times> int \<Rightarrow> number" where
  "luminance im width p =
     (case p of (y, x) \<Rightarrow>
        (case (image_at im ((y * width + x) * 4), image_at im ((y * width + x) * 4 + 1),
               image_at im ((y * width + x) * 4 + 2)) of
           (Some r, Some g, Some b) \<Rightarrow> Some ((r + g + b) / 3)
         | _ \<Rightarrow> None))"

text \<open>The mean of a list of values, and their variance: the mean squared deviation.\<close>

definition mean_of :: "rat list \<Rightarrow> rat" where
  "mean_of vs = sum_list vs / of_nat (length vs)"

definition variance_of :: "rat list \<Rightarrow> rat" where
  "variance_of vs = (\<Sum>v\<leftarrow>vs. (v - mean_of vs)\<^sup>2) / of_nat (length vs)"

text \<open>
  The variance of luminance over a region of the frame: undefined (\<open>None\<close>) for a region
  without pixels or with a pixel outside the data.
\<close>

definition luminance_variance ::
  "nat list \<Rightarrow> int \<Rightarrow> int \<Rightarrow> int \<Rightarrow> int \<Rightarrow> int \<Rightarrow> rat option" where
  "luminance_variance im width x0 y0 w h =
     (let ls = map (luminance im width) (rectangle x0 y0 w h)
      in if ls = [] \<or> None \<in> set ls then None else Some (variance_of (map the ls)))"

text \<open>
  The central region: 60% of the width by 60% of the height, 20% away from the left and
  the top edge.
\<close>

definition centralVariance :: "nat \<Rightarrow> nat \<Rightarrow> nat list \<Rightarrow> rat option" where
  "centralVariance width height im =
     luminance_variance im (int width)
       \<lfloor>(of_nat width :: rat) * 0.2\<rfloor> \<lfloor>(of_nat height :: rat) * 0.2\<rfloor>
       \<lfloor>(of_nat width :: rat) * 0.6\<rfloor> \<lfloor>(of_nat height :: rat) * 0.6\<rfloor>"

text \<open>
  The four edge regions: strips around the central region that do not overlap and cover
  the rest of the frame. The strips left and right of the central region span its rows;
  the strips above and below it span the whole width.
\<close>

definition edgeVariances :: "nat \<Rightarrow> nat \<Rightarrow> nat list \<Rightarrow> rat option list" where
  "edgeVariances width height im =
     (let cx = \<lfloor>(of_nat width :: rat) * 0.2\<rfloor>;
          cy = \<lfloor>(of_nat height :: rat) * 0.2\<rfloor>;
          cw = \<lfloor>(of_nat width :: rat) * 0.6\<rfloor>;
          ch = \<lfloor>(of_nat height :: rat) * 0.6\<rfloor>
      in [luminance_variance im (int width) 0 cy cx ch,
          luminance_variance im (int width) (cx + cw) cy (int width - (cx + cw)) ch,
          luminance_variance im (int width) 0 0 (int width) cy,
          luminance_variance im (int width) 0 (cy + ch) (int width) (int height - (cy + ch))])"

text \<open>The mean of the four edge variances, undefined when one of them is.\<close>

definition meanEdgeVariance :: "nat \<Rightarrow> nat \<Rightarrow> nat list \<Rightarrow> rat option" where
  "meanEdgeVariance width height im =
     (let vs = edgeVariances width height im
      in if None \<in> set vs then None else Some (mean_of (map the vs)))"

text \<open>
  What the source computes in their place, written on the list of the pixels of a region
  and in the arithmetic of doubles: the luminance of a pixel, the sum of a list of doubles
  added one by one from the left, the mean, and for the variance the mean of the squares
  less the square of the mean.
\<close>

definition luminance64 :: "nat list \<Rightarrow> int \<Rightarrow> int \<times> int \<Rightarrow> number" where
  "luminance64 im width p =
     (case p of (y, x) \<Rightarrow>
        (case (image_at im ((y * width + x) * 4), image_at im ((y * width + x) * 4 + 1),
               image_at im ((y * width + x) * 4 + 2)) of
           (Some r, Some g, Some b) \<Rightarrow> Some (fl64 (fl64 (fl64 (r + g) + b) / 3))
         | _ \<Rightarrow> None))"

definition sum64 :: "rat list \<Rightarrow> rat" where
  "sum64 vs = foldl (\<lambda>a v. fl64 (a + v)) 0 vs"

definition mean64 :: "rat list \<Rightarrow> rat" where
  "mean64 vs = fl64 (sum64 vs / of_nat (length vs))"

definition variance64 :: "rat list \<Rightarrow> rat" where
  "variance64 vs =
     fl64 (mean64 (map (\<lambda>v. fl64 (v * v)) vs) - fl64 (mean64 vs * mean64 vs))"

definition luminance_variance64 ::
  "nat list \<Rightarrow> int \<Rightarrow> int \<Rightarrow> int \<Rightarrow> int \<Rightarrow> int \<Rightarrow> rat option" where
  "luminance_variance64 im width x0 y0 w h =
     (let ls = map (luminance64 im width) (rectangle x0 y0 w h)
      in if ls = [] \<or> None \<in> set ls then None else Some (variance64 (map the ls)))"

text \<open>
  The central region with the sides that the source floors in doubles, and the four edge
  regions as the source cuts them: the strips left and right of the central region over
  the whole height, the strips above and below it over the whole width. The corners of
  the frame lie in two strips.
\<close>

definition centralVariance64 :: "nat \<Rightarrow> nat \<Rightarrow> nat list \<Rightarrow> rat option" where
  "centralVariance64 width height im =
     luminance_variance64 im (int width)
       \<lfloor>fl64 (of_nat width * fl64 0.2)\<rfloor> \<lfloor>fl64 (of_nat height * fl64 0.2)\<rfloor>
       \<lfloor>fl64 (of_nat width * fl64 0.6)\<rfloor> \<lfloor>fl64 (of_nat height * fl64 0.6)\<rfloor>"

definition edgeVariances64 :: "nat \<Rightarrow> nat \<Rightarrow> nat list \<Rightarrow> rat option list" where
  "edgeVariances64 width height im =
     (let cx = \<lfloor>fl64 (of_nat width * fl64 0.2)\<rfloor>;
          cy = \<lfloor>fl64 (of_nat height * fl64 0.2)\<rfloor>;
          cw = \<lfloor>fl64 (of_nat width * fl64 0.6)\<rfloor>;
          ch = \<lfloor>fl64 (of_nat height * fl64 0.6)\<rfloor>
      in [luminance_variance64 im (int width) 0 0 cx (int height),
          luminance_variance64 im (int width) (cx + cw) 0 (int width - (cx + cw)) (int height),
          luminance_variance64 im (int width) 0 0 (int width) cy,
          luminance_variance64 im (int width) 0 (cy + ch) (int width) (int height - (cy + ch))])"

definition meanEdgeVariance64 :: "nat \<Rightarrow> nat \<Rightarrow> nat list \<Rightarrow> rat option" where
  "meanEdgeVariance64 width height im =
     (let vs = edgeVariances64 width height im
      in if None \<in> set vs then None else Some (mean64 (map the vs)))"

text \<open>
  The eye band of a face box: the horizontal band that starts a quarter of the height of
  the box below its top and is a quarter of that height high, as wide as the box, in whole
  pixels; it starts neither above the first row nor left of the first column of the frame.
\<close>

definition eyeBand :: "FaceBox \<Rightarrow> (int \<times> int) list" where
  "eyeBand box =
     rectangle (max 0 \<lfloor>box_x box\<rfloor>) (max 0 \<lfloor>box_y box + box_height box / 4\<rfloor>)
       \<lfloor>box_width box\<rfloor> \<lfloor>box_height box / 4\<rfloor>"

text \<open>
  The same band with the quarter of the height, and its sum with the top of the box,
  rounded to doubles before the whole pixels are taken.
\<close>

definition eyeBand64 :: "FaceBox \<Rightarrow> (int \<times> int) list" where
  "eyeBand64 box =
     rectangle (max 0 \<lfloor>box_x box\<rfloor>)
       (max 0 \<lfloor>fl64 (box_y box + fl64 (box_height box / 4))\<rfloor>)
       \<lfloor>box_width box\<rfloor> \<lfloor>fl64 (box_height box / 4)\<rfloor>"

text \<open>
  A pixel has changed between two frames when the absolute differences of its R, G and B,
  averaged, exceed 18. Both frames are read at the index computed with the width of the
  first, as \<^verbatim>\<open>diffInRegion\<close> does.
\<close>

definition pixelChanged :: "ImageData \<Rightarrow> ImageData \<Rightarrow> int \<times> int \<Rightarrow> bool" where
  "pixelChanged a b p =
     (case p of (y, x) \<Rightarrow>
        let i = (y * int (img_width a) + x) * 4
        in (case (num_absdiff (image_at (img_data a) i) (image_at (img_data b) i),
                  num_absdiff (image_at (img_data a) (i + 1)) (image_at (img_data b) (i + 1)),
                  num_absdiff (image_at (img_data a) (i + 2)) (image_at (img_data b) (i + 2))) of
              (Some dr, Some dg, Some db) \<Rightarrow> (dr + dg + db) / 3 > 18
            | _ \<Rightarrow> False))"

text \<open>The fraction of the pixels of a list that have changed; 0 for no pixels.\<close>

definition changedFraction :: "ImageData \<Rightarrow> ImageData \<Rightarrow> (int \<times> int) list \<Rightarrow> rat" where
  "changedFraction a b ps =
     (if ps = [] then 0
      else of_nat (length (filter (pixelChanged a b) ps)) / of_nat (length ps))"

subsection \<open>Browsers and videos to run the model on\<close>

text \<open>A canvas with a context and nothing drawn yet, and a run about to start at time 0.\<close>

definition emptyCanvas :: canvas where
  "emptyCanvas =
     \<lparr>cv_ctx = True, cv_width = 0, cv_height = 0, cv_data = [], cv_clean = True\<rparr>"

definition atStart :: world where
  "atStart = \<lparr>now = 0, cnv = emptyCanvas, notified = []\<rparr>"

text \<open>No \<^verbatim>\<open>FaceDetector\<close>, a video of 5 by 5 black pixels, timers on time.\<close>

definition blackVideo :: platform where
  "blackVideo =
     \<lparr>faceDetector = False,
      detect = (\<lambda>cv. Inl DetectorFailure),
      video = (\<lambda>t. \<lparr>videoWidth = 5, videoHeight = 5, rendered = replicate 100 0\<rparr>),
      timerLag = (\<lambda>t. 0)\<rparr>"

text \<open>
  A \<^verbatim>\<open>FaceDetector\<close> that reads the face's abscissa off the first byte of the frame, and
  a head at 100 that is at 80 from 700 ms on.
\<close>

definition turningHead :: platform where
  "turningHead =
     \<lparr>faceDetector = True,
      detect = (\<lambda>cv. Inr [\<lparr>box_x = of_nat (hd (cv_data cv)), box_y = 50,
                              box_width = 200, box_height = 200\<rparr>]),
      video = (\<lambda>t. \<lparr>videoWidth = 1, videoHeight = 1,
                      rendered = [if t < 700 then 100 else 80, 0, 0, 255]\<rparr>),
      timerLag = (\<lambda>t. 0)\<rparr>"

text \<open>
  A \<^verbatim>\<open>FaceDetector\<close> that finds a face at the abscissa \<^verbatim>\<open>0.3\<close> while the first byte of
  the frame is 0 and at \<^verbatim>\<open>10.3\<close> afterwards (the doubles that these literals denote),
  and a head that moves at 700 ms.
\<close>

definition slidingHead :: platform where
  "slidingHead =
     \<lparr>faceDetector = True,
      detect = (\<lambda>cv. Inr [\<lparr>box_x = (if hd (cv_data cv) = 0
                                      then 5404319552844595 / 18014398509481984
                                      else 2899192260119757 / 281474976710656),
                              box_y = 50, box_width = 200, box_height = 200\<rparr>]),
      video = (\<lambda>t. \<lparr>videoWidth = 1, videoHeight = 1,
                      rendered = [if t < 700 then 0 else 1, 0, 0, 255]\<rparr>),
      timerLag = (\<lambda>t. 0)\<rparr>"

text \<open>
  A \<^verbatim>\<open>FaceDetector\<close> that finds one face, one pixel wide and four high, at the abscissa
  it reads off the first byte of the frame.
\<close>

definition faceAt :: "canvas \<Rightarrow> error + FaceBox list" where
  "faceAt cv =
     Inr [\<lparr>box_x = of_nat (hd (cv_data cv)), box_y = 0, box_width = 1, box_height = 4\<rparr>]"

text \<open>
  A video of one column of two pixels. The eye band of the face is the second pixel: it
  goes from black to white at 140 ms (a blink). The first byte moves the face from 0 to 50
  at 280 ms, to 20 at 980 ms and back to 50 at 1680 ms.
\<close>

definition liveFace :: platform where
  "liveFace =
     \<lparr>faceDetector = True,
      detect = faceAt,
      video = (\<lambda>t. \<lparr>videoWidth = 1, videoHeight = 2,
                      rendered = [if t < 280 then 0 else if t < 980 then 50
                                  else if t < 1680 then 20 else 50, 0, 0, 255,
                                  if t < 140 then 0 else 255, if t < 140 then 0 else 255,
                                  if t < 140 then 0 else 255, 255]\<rparr>),
      timerLag = (\<lambda>t. 0)\<rparr>"

text \<open>The same face on a video that never changes.\<close>

definition stillFace :: platform where
  "stillFace =
     \<lparr>faceDetector = True,
      detect = faceAt,
      video = (\<lambda>t. \<lparr>videoWidth = 1, videoHeight = 2,
                      rendered = [0, 0, 0, 255, 0, 0, 0, 255]\<rparr>),
      timerLag = (\<lambda>t. 0)\<rparr>"

text \<open>A \<^verbatim>\<open>FaceDetector\<close> that always throws, on the black video.\<close>

definition throwingDetector :: platform where
  "throwingDetector =
     \<lparr>faceDetector = True,
      detect = (\<lambda>cv. Inl DetectorFailure),
      video = (\<lambda>t. \<lparr>videoWidth = 5, videoHeight = 5, rendered = replicate 100 0\<rparr>),
      timerLag = (\<lambda>t. 0)\<rparr>"

text \<open>The canvas after a capture of the black video.\<close>

definition blackCanvas :: canvas where
  "blackCanvas =
     \<lparr>cv_ctx = True, cv_width = 5, cv_height = 5, cv_data = replicate 100 0,
      cv_clean = True\<rparr>"

text \<open>A run on a canvas whose \<^verbatim>\<open>getContext('2d')\<close> gives \<^verbatim>\<open>null\<close>.\<close>

definition noContext :: world where
  "noContext =
     \<lparr>now = 0,
      cnv = \<lparr>cv_ctx = False, cv_width = 300, cv_height = 150, cv_data = [],
             cv_clean = True\<rparr>,
      notified = []\<rparr>"


text \<open>A frame of 5 by 5 pixels, all of the colour (1, 0, 0), opaque.\<close>

definition uniformFrame :: "nat list" where
  "uniformFrame =
     map (\<lambda>i. if i mod 4 = 0 then 1 else if i mod 4 = 3 then 255 else 0) [0 ..< 100]"

text \<open>A frame of 5 by 5 black pixels with a white pixel in the middle.\<close>

definition brightCentre :: "nat list" where
  "brightCentre = replicate 48 0 @ [255, 255, 255, 255] @ replicate 48 0"

text \<open>The three frames that \<open>checkBlink\<close> samples from \<open>liveFace\<close>.\<close>

definition frameA :: ImageData where
  "frameA = \<lparr>img_width = 1, img_height = 2, img_data = [0, 0, 0, 255, 0, 0, 0, 255]\<rparr>"

definition frameB :: ImageData where
  "frameB = \<lparr>img_width = 1, img_height = 2, img_data = [0, 0, 0, 255, 255, 255, 255, 255]\<rparr>"

definition frameC :: ImageData where
  "frameC = \<lparr>img_width = 1, img_height = 2, img_data = [50, 0, 0, 255, 255, 255, 255, 255]\<rparr>"

section \<open>Properties\<close>

subsection \<open>Arithmetic with NaN\<close>

lemma num_add_simps:
  "num_add (Some p) (Some q) = Some (p + q)" "num_add None b = None" "num_add a None = None"
  by (simp_all add: num_add_def split: option.splits)

lemma num_sub_simps:
  "num_sub (Some p) (Some q) = Some (p - q)" "num_sub None b = None" "num_sub a None = None"
  by (simp_all add: num_sub_def split: option.splits)

lemma num_mul_simps:
  "num_mul (Some p) (Some q) = Some (p * q)" "num_mul None b = None" "num_mul a None = None"
  by (simp_all add: num_mul_def split: option.splits)

lemma num_div_simps:
  "num_div (Some p) (Some q) = (if q = 0 then None else Some (p / q))"
  "num_div None b = None" "num_div a None = None"
  by (simp_all add: num_div_def split: option.splits)

lemma num_gt_simps:
  "num_gt (Some p) (Some q) = (q < p)" "num_gt None b = False" "num_gt a None = False"
  by (simp_all add: num_gt_def split: option.splits)

lemma num_absdiff_simps:
  "num_absdiff (Some p) (Some q) = Some \<bar>p - q\<bar>" "num_absdiff None b = None"
  "num_absdiff a None = None"
  by (simp_all add: num_absdiff_def split: option.splits)

lemmas num_simps = num_add_simps num_sub_simps num_mul_simps num_div_simps num_gt_simps
  num_absdiff_simps

lemma dbl_simps:
  "dbl_add (Some p) (Some q) = Some (fl64 (p + q))" "dbl_add None b = None" "dbl_add a None = None"
  "dbl_sub (Some p) (Some q) = Some (fl64 (p - q))" "dbl_sub None b = None" "dbl_sub a None = None"
  "dbl_mul (Some p) (Some q) = Some (fl64 (p * q))" "dbl_mul None b = None" "dbl_mul a None = None"
  "dbl_div (Some p) (Some q) = (if q = 0 then None else Some (fl64 (p / q)))"
  "dbl_div None b = None" "dbl_div a None = None"
  by (simp_all add: dbl_add_def dbl_sub_def dbl_mul_def dbl_div_def num_simps)

subsection \<open>Rounding to a double\<close>

lemma pow2_powi: "pow2 e = 2 powi e"
  by (simp add: pow2_def power_int_def inverse_eq_divide power_one_over)

lemma pow2_pos: "0 < pow2 e"
  by (simp add: pow2_powi)

lemma pow2_diff: "pow2 (a - b) = pow2 a / pow2 b"
  by (simp add: pow2_powi power_int_diff)

lemma pow2_nat: "0 \<le> e \<Longrightarrow> pow2 e = 2 ^ nat e"
  by (simp add: pow2_def)

lemma expo_bounds:
  assumes "0 < x"
  shows "pow2 (expo x) \<le> x \<and> x < pow2 (expo x + 1)"
proof (cases "1 \<le> x")
  case True
  define n where "n = \<lfloor>x\<rfloor>"
  have n: "0 < n" using True by (simp add: n_def)
  have e: "expo x = bitlen n - 1" using True by (simp add: expo_def n_def)
  from bitlen_bounds [OF n] have lo: "2 ^ nat (bitlen n - 1) \<le> n" and hi: "n < 2 ^ nat (bitlen n)"
    by auto
  have b1: "1 \<le> bitlen n" using n by (simp add: bitlen_alt_def)
  have "pow2 (expo x) = of_int (2 ^ nat (bitlen n - 1))"
    using b1 by (simp add: e pow2_nat)
  also have "\<dots> \<le> of_int n" using lo by (simp only: of_int_le_iff)
  also have "\<dots> \<le> x" by (simp add: n_def)
  finally have 1: "pow2 (expo x) \<le> x" .
  have "n + 1 \<le> 2 ^ nat (bitlen n)" using hi by simp
  then have "(of_int (n + 1) :: rat) \<le> of_int (2 ^ nat (bitlen n))"
    by (simp only: of_int_le_iff)
  moreover have "x < of_int (n + 1)" unfolding n_def by linarith
  ultimately have "x < of_int (2 ^ nat (bitlen n))" by linarith
  moreover have "pow2 (expo x + 1) = of_int (2 ^ nat (bitlen n))"
    using b1 by (simp add: e pow2_nat)
  ultimately show ?thesis using 1 by simp
next
  case False
  define y where "y = 1 / x"
  have y: "1 < y" using False assms by (simp add: y_def)
  define m where "m = \<lceil>y\<rceil> - 1"
  have m: "0 < m" using y by (simp add: m_def less_ceiling_iff)
  define k where "k = bitlen m"
  have e: "expo x = - k" using False by (simp add: expo_def k_def m_def y_def)
  from bitlen_bounds [OF m] have lo: "2 ^ nat (k - 1) \<le> m" and hi: "m < 2 ^ nat k"
    by (auto simp: k_def)
  have k1: "1 \<le> k" using m by (simp add: k_def bitlen_alt_def)
  have c1: "(of_int (m + 1) :: rat) \<le> of_int (2 ^ nat k)"
    using hi by (simp only: of_int_le_iff)
  have c2: "(of_int (2 ^ nat k) :: rat) = 2 ^ nat k" by simp
  have "y \<le> of_int (m + 1)" unfolding m_def by simp
  with c1 c2 have yk: "y \<le> 2 ^ nat k" by linarith
  have c3: "(of_int (2 ^ nat (k - 1)) :: rat) \<le> of_int m"
    using lo by (simp only: of_int_le_iff)
  have c4: "(of_int (2 ^ nat (k - 1)) :: rat) = 2 ^ nat (k - 1)" by simp
  have "of_int m < y" unfolding m_def by linarith
  with c3 c4 have ky: "2 ^ nat (k - 1) < y" by linarith
  have p1: "pow2 (expo x) = 1 / 2 ^ nat k"
    using k1 by (simp add: e pow2_def)
  have p2: "pow2 (expo x + 1) = 1 / 2 ^ nat (k - 1)"
  proof (cases "k = 1")
    case True
    then show ?thesis by (simp add: e pow2_def)
  next
    case False
    with k1 have "- k + 1 < 0" by simp
    moreover have "nat (- (- k + 1)) = nat (k - 1)" by simp
    ultimately show ?thesis by (simp add: e pow2_def)
  qed
  have x: "1 / y = x" using assms by (simp add: y_def)
  have "1 / 2 ^ nat k \<le> 1 / y"
    using yk y by (intro divide_left_mono) simp_all
  moreover have "1 / y < 1 / 2 ^ nat (k - 1)"
    using ky by (intro divide_strict_left_mono) (simp_all add: y [THEN less_trans [OF zero_less_one]])
  ultimately show ?thesis unfolding p1 p2 x by simp
qed

lemma round_even_bounds:
  "of_int (round_even m) \<le> m + 1 / 2 \<and> m - 1 / 2 \<le> of_int (round_even m)"
proof -
  define f where "f = \<lfloor>m\<rfloor>"
  have f: "of_int f \<le> m" "m < of_int f + 1" unfolding f_def by linarith+
  consider "m - of_int f < 1 / 2" | "1 / 2 < m - of_int f" | "m - of_int f = 1 / 2"
    by linarith
  then show ?thesis
  proof cases
    case 1
    then have "round_even m = f" by (simp add: round_even_def f_def Let_def)
    with 1 f show ?thesis by simp
  next
    case 2
    then have "round_even m = f + 1" by (simp add: round_even_def f_def Let_def)
    with 2 f show ?thesis by simp
  next
    case 3
    then have "round_even m = f \<or> round_even m = f + 1"
      by (simp add: round_even_def f_def Let_def)
    with 3 f show ?thesis by auto
  qed
qed

lemma round_even_nonneg: "0 \<le> m \<Longrightarrow> 0 \<le> round_even m"
  by (auto simp: round_even_def Let_def)

lemma fl64_nonneg: "0 \<le> x \<Longrightarrow> 0 \<le> fl64 x"
  by (auto simp: fl64_def Let_def pow2_pos less_imp_le intro!: mult_nonneg_nonneg round_even_nonneg)

lemma fl64_upper:
  assumes "0 \<le> x"
  shows "fl64 x \<le> x * (1 + 1 / 2 ^ 53)"
proof (cases "x = 0")
  case True
  then show ?thesis by (simp add: fl64_def)
next
  case False
  with assms have x: "0 < x" by simp
  define q where "q = pow2 (expo x - 52)"
  have q: "0 < q" by (simp add: q_def pow2_pos)
  have "pow2 52 = 2 ^ 52" by (simp add: pow2_def)
  then have "q = pow2 (expo x) / 2 ^ 52"
    by (simp add: q_def pow2_diff [of "expo x" 52])
  moreover have "pow2 (expo x) \<le> x" using expo_bounds [OF x] by simp
  ultimately have qx: "q \<le> x / 2 ^ 52" by (simp add: divide_right_mono)
  have "fl64 x = of_int (round_even (x / q)) * q"
    using x by (simp add: fl64_def q_def Let_def)
  also have "\<dots> \<le> (x / q + 1 / 2) * q"
    using round_even_bounds [of "x / q"] q by (intro mult_right_mono) simp_all
  also have "\<dots> = x + q / 2"
    using q by (simp add: field_simps)
  also have "\<dots> \<le> x + (x / 2 ^ 52) / 2"
    using qx by simp
  also have "\<dots> = x * (1 + 1 / 2 ^ 53)"
    by (simp add: field_simps)
  finally show ?thesis .
qed

text \<open>Evaluating a rounding on numerals.\<close>

lemma floor_numeral_div: "\<lfloor>(numeral a :: rat) / numeral b\<rfloor> = numeral a div numeral b"
proof -
  have "(numeral a :: rat) / numeral b = of_int (numeral a) / of_int (numeral b)" by simp
  then show ?thesis by (simp only: floor_divide_of_int_eq)
qed

lemma floor_one_div: "\<lfloor>(1 :: rat) / numeral b\<rfloor> = 1 div numeral b"
proof -
  have "(1 :: rat) / numeral b = of_int 1 / of_int (numeral b)" by simp
  then show ?thesis by (simp only: floor_divide_of_int_eq)
qed

lemma ceiling_numeral_div:
  "\<lceil>(numeral a :: rat) / numeral b\<rceil> = - ((- numeral a) div numeral b)"
proof -
  have "(numeral a :: rat) / numeral b = of_int (numeral a) / of_int (numeral b)" by simp
  then show ?thesis by (simp only: ceiling_divide_eq_div)
qed

lemma bitlen_numeral: "bitlen (numeral k) = bitlen (numeral k div 2) + 1"
  by (subst compute_bitlen) simp

lemma bitlen_one: "bitlen 1 = 1"
  by (subst compute_bitlen) simp

lemma fl64_zero: "fl64 0 = 0"
  by (simp add: fl64_def)

lemma fl64_fraction:
  "fl64 (numeral a / numeral b) =
     (let x = numeral a / numeral b; q = pow2 (expo x - 52) in of_int (round_even (x / q)) * q)"
  by (simp add: fl64_def)

lemma fl64_inverse:
  "fl64 (1 / numeral b) =
     (let x = 1 / numeral b; q = pow2 (expo x - 52) in of_int (round_even (x / q)) * q)"
  by (simp add: fl64_def)

lemma fl64_numeral:
  "fl64 (numeral a) =
     (let x = numeral a; q = pow2 (expo x - 52) in of_int (round_even (x / q)) * q)"
  by (simp add: fl64_def)

lemmas fl64_eval_body = expo_def pow2_def round_even_def Let_def
  floor_numeral_div floor_one_div ceiling_numeral_div bitlen_numeral bitlen_one

lemma fl64_one: "fl64 1 = 1"
  by (simp add: fl64_def fl64_eval_body)

lemma fl64_minus_numeral:
  "fl64 (- numeral a) =
     (let q = pow2 (expo (numeral a) - 52) in of_int (round_even (- numeral a / q)) * q)"
  by (simp add: fl64_def)

lemmas fl64_eval = fl64_zero fl64_one fl64_fraction fl64_inverse fl64_numeral fl64_minus_numeral
  fl64_eval_body

lemma fl64_literals:
  "fl64 0.2 = 3602879701896397 / 18014398509481984"
  "fl64 0.6 = 5404319552844595 / 9007199254740992"
  "fl64 1.15 = 2589569785738035 / 2251799813685248"
  "fl64 0.3 = 5404319552844595 / 18014398509481984"
  "fl64 10.3 = 2899192260119757 / 281474976710656"
  by (simp_all add: fl64_eval)

lemma fl64_quarter: "fl64 0.25 = 1 / 4"
  by (simp add: fl64_eval)

subsection \<open>The loops of region compute the variance in doubles\<close>

lemma fold_rows:
  "fold (\<lambda>y. fold (f y) xs) ys acc = fold (\<lambda>p. f (fst p) (snd p)) (List.product ys xs) acc"
proof (induction ys arbitrary: acc)
  case Nil
  show ?case by simp
next
  case (Cons y ys)
  have "fold (\<lambda>p. f (fst p) (snd p)) (map (Pair y) xs) acc = fold (f y) xs acc"
    by (simp add: fold_map comp_def)
  with Cons show ?case by simp
qed

lemma foldl_dbl_add_None: "foldl dbl_add None ls = None"
  by (induction ls) (simp_all add: dbl_simps)

lemma foldl_dbl_add:
  "foldl dbl_add (Some s) ls =
     (if None \<in> set ls then None else Some (foldl (\<lambda>a v. fl64 (a + v)) s (map the ls)))"
proof (induction ls arbitrary: s)
  case Nil
  show ?case by simp
next
  case (Cons v ls)
  then show ?case by (cases v) (simp_all add: dbl_simps foldl_dbl_add_None)
qed

lemma region_pixel_luminance64:
  "region_pixel im width y x (a, b, n) =
     (dbl_add a (luminance64 im width (y, x)),
      dbl_add b (dbl_mul (luminance64 im width (y, x)) (luminance64 im width (y, x))), n + 1)"
  by (auto simp: region_pixel_def luminance64_def Let_def dbl_simps split: option.splits)

lemma fold_region_pixel:
  "fold (\<lambda>p. region_pixel im width (fst p) (snd p)) ps (a, b, n) =
     (foldl dbl_add a (map (luminance64 im width) ps),
      foldl dbl_add b (map (\<lambda>p. dbl_mul (luminance64 im width p) (luminance64 im width p)) ps),
      n + length ps)"
proof (induction ps arbitrary: a b n)
  case Nil
  show ?case by simp
next
  case (Cons p ps)
  obtain y x where p: "p = (y, x)" by (cases p)
  show ?case by (simp add: p region_pixel_luminance64 Cons.IH)
qed

lemma dbl_mul_the:
  "None \<notin> set ls \<Longrightarrow> map (\<lambda>v. dbl_mul v v) ls = map (\<lambda>v. Some (fl64 (the v * the v))) ls"
proof (induction ls)
  case Nil
  show ?case by simp
next
  case (Cons v ls)
  then show ?case by (cases v) (auto simp: dbl_simps)
qed

lemma region_variance64:
  "variance (region im width x0 y0 w h) = luminance_variance64 im width x0 y0 w h"
proof -
  let ?ps = "rectangle x0 y0 w h"
  let ?ls = "map (luminance64 im width) ?ps"
  let ?sq = "map (\<lambda>p. dbl_mul (luminance64 im width p) (luminance64 im width p)) ?ps"
  have fold: "fold (\<lambda>y. fold (region_pixel im width y) [x0 .. x0 + w - 1]) [y0 .. y0 + h - 1]
               (Some 0, Some 0, 0) =
             (foldl dbl_add (Some 0) ?ls, foldl dbl_add (Some 0) ?sq, length ?ps)"
    by (simp add: fold_rows fold_region_pixel rectangle_def)
  show ?thesis
  proof (cases "?ls = [] \<or> None \<in> set ?ls")
    case True
    then consider "?ps = []" | "None \<in> set ?ls" by auto
    then have "variance (region im width x0 y0 w h) = None"
    proof cases
      case 1
      then show ?thesis by (simp add: region_def fold Let_def dbl_simps)
    next
      case 2
      then have "foldl dbl_add (Some 0) ?ls = None" by (simp add: foldl_dbl_add)
      then show ?thesis by (simp add: region_def fold Let_def dbl_simps)
    qed
    with True show ?thesis by (simp add: luminance_variance64_def Let_def)
  next
    case False
    then have ne: "?ps \<noteq> []" and def: "None \<notin> set ?ls" by auto
    have sq: "?sq = map (\<lambda>v. Some (fl64 (the v * the v))) ?ls"
      using dbl_mul_the [OF def] by (simp add: comp_def)
    have s1: "foldl dbl_add (Some 0) ?ls = Some (sum64 (map the ?ls))"
      using def by (simp add: foldl_dbl_add sum64_def)
    have s2: "foldl dbl_add (Some 0) ?sq = Some (sum64 (map (\<lambda>v. fl64 (v * v)) (map the ?ls)))"
      unfolding sq by (auto simp: foldl_dbl_add sum64_def comp_def)
    have "variance (region im width x0 y0 w h) = Some (variance64 (map the ?ls))"
      using ne by (simp add: region_def fold s1 s2 Let_def dbl_simps variance64_def mean64_def
                     del: map_map)
    then show ?thesis using False by (simp add: luminance_variance64_def Let_def del: map_map)
  qed
qed

lemma edgeVar64_eq:
  "dbl_div (fold (\<lambda>e a. dbl_add a (variance e))
              [region im wd a1 b1 c1 d1, region im wd a2 b2 c2 d2,
               region im wd a3 b3 c3 d3, region im wd a4 b4 c4 d4] (Some 0))
     (Some (of_nat (length [region im wd a1 b1 c1 d1, region im wd a2 b2 c2 d2,
               region im wd a3 b3 c3 d3, region im wd a4 b4 c4 d4]))) =
   (let vs = [luminance_variance64 im wd a1 b1 c1 d1, luminance_variance64 im wd a2 b2 c2 d2,
              luminance_variance64 im wd a3 b3 c3 d3, luminance_variance64 im wd a4 b4 c4 d4]
    in if None \<in> set vs then None else Some (mean64 (map the vs)))"
  by (cases "luminance_variance64 im wd a1 b1 c1 d1"; cases "luminance_variance64 im wd a2 b2 c2 d2";
      cases "luminance_variance64 im wd a3 b3 c3 d3"; cases "luminance_variance64 im wd a4 b4 c4 d4")
     (simp_all add: region_variance64 dbl_simps mean64_def sum64_def Let_def)

lemma naiveDetection_spec:
  "naiveDetection width height im =
     (if num_gt (centralVariance64 width height im)
           (dbl_mul (meanEdgeVariance64 width height im) (Some (fl64 1.15)))
      then Some \<lparr>box_x = of_int \<lfloor>fl64 (of_nat width * fl64 0.2)\<rfloor>,
                  box_y = of_int \<lfloor>fl64 (of_nat height * fl64 0.2)\<rfloor>,
                  box_width = of_int \<lfloor>fl64 (of_nat width * fl64 0.6)\<rfloor>,
                  box_height = of_int \<lfloor>fl64 (of_nat height * fl64 0.6)\<rfloor>\<rparr>
      else None)"
  unfolding naiveDetection_def centralVariance64_def meanEdgeVariance64_def edgeVariances64_def
    Let_def edgeVar64_eq region_variance64
  by (rule refl)

lemma rectangle_empty: "rectangle x0 y0 w h = [] \<longleftrightarrow> w \<le> 0 \<or> h \<le> 0"
proof -
  have "List.product ys xs = [] \<longleftrightarrow> ys = [] \<or> xs = []" for ys :: "int list" and xs :: "int list"
    by (induction ys) auto
  then show ?thesis by (auto simp: rectangle_def)
qed

lemma luminance_variance64_Some:
  "luminance_variance64 im width x0 y0 w h = Some v \<Longrightarrow> 0 < w \<and> 0 < h"
  using rectangle_empty [of x0 y0 w h]
  by (auto simp: luminance_variance64_def Let_def split: if_splits)

text \<open>The floors of the code stay inside the frame.\<close>

lemma fl64_literals_nonneg: "0 \<le> fl64 0.2" "0 \<le> fl64 0.6" "0 \<le> fl64 1.15"
  by (simp_all add: fl64_nonneg)

lemma fl64_literals_sum: "(fl64 0.2 + fl64 0.6) * (1 + 1 / 2 ^ 53) \<le> 1"
  unfolding fl64_literals by simp

lemma central_floors:
  "0 \<le> \<lfloor>fl64 (of_nat w * fl64 0.2)\<rfloor> \<and>
   \<lfloor>fl64 (of_nat w * fl64 0.2)\<rfloor> + \<lfloor>fl64 (of_nat w * fl64 0.6)\<rfloor> \<le> int w"
proof -
  define p where "p = fl64 0.2"
  define q where "q = fl64 0.6"
  define a where "a = fl64 (of_nat w * p)"
  define b where "b = fl64 (of_nat w * q)"
  have p0: "0 \<le> p" and q0: "0 \<le> q"
    unfolding p_def q_def by (rule fl64_literals_nonneg)+
  have pq: "(p + q) * (1 + 1 / 2 ^ 53) \<le> 1"
    unfolding p_def q_def by (rule fl64_literals_sum)
  have a0: "0 \<le> a" unfolding a_def using p0 by (intro fl64_nonneg) simp
  have "a \<le> (of_nat w * p) * (1 + 1 / 2 ^ 53)"
    unfolding a_def using p0 by (intro fl64_upper) simp
  moreover have "b \<le> (of_nat w * q) * (1 + 1 / 2 ^ 53)"
    unfolding b_def using q0 by (intro fl64_upper) simp
  ultimately have "a + b \<le> of_nat w * ((p + q) * (1 + 1 / 2 ^ 53))"
    by (simp add: algebra_simps)
  also have "\<dots> \<le> of_nat w * 1"
    using pq by (intro mult_left_mono) simp_all
  finally have "a + b \<le> of_nat w" by simp
  moreover have "of_int \<lfloor>a\<rfloor> \<le> a" and "of_int \<lfloor>b\<rfloor> \<le> b" by simp_all
  ultimately have "(of_int \<lfloor>a\<rfloor> :: rat) + of_int \<lfloor>b\<rfloor> \<le> of_nat w" by linarith
  then have "(of_int (\<lfloor>a\<rfloor> + \<lfloor>b\<rfloor>) :: rat) \<le> of_int (int w)" by simp
  then have "\<lfloor>a\<rfloor> + \<lfloor>b\<rfloor> \<le> int w" by (simp only: of_int_le_iff)
  moreover have "0 \<le> \<lfloor>a\<rfloor>" using a0 by simp
  ultimately show ?thesis unfolding a_def b_def p_def q_def by blast
qed

subsection \<open>Frames, evaluated\<close>

lemma floor_fifth: "\<lfloor>(of_nat w :: rat) * 0.2\<rfloor> = int w div 5"
proof -
  have "(of_nat w :: rat) * 0.2 = of_int (int w) / of_int 5" by simp
  then show ?thesis by (simp only: floor_divide_of_int_eq)
qed

lemma floor_three_fifths: "\<lfloor>(of_nat w :: rat) * 0.6\<rfloor> = (3 * int w) div 5"
proof -
  have "(of_nat w :: rat) * 0.6 = of_int (3 * int w) / of_int 5" by simp
  then show ?thesis by (simp only: floor_divide_of_int_eq)
qed

text \<open>
  The uniform frame: every pixel has the luminance \<open>1 / 3\<close>, so the exact variance of
  luminance is 0 over every region of the frame, however the strips are cut.
\<close>

lemma image_at_nat: "n < length im \<Longrightarrow> image_at im (int n) = Some (of_nat (im ! n))"
  by (simp add: image_at_def)

lemma uniformFrame_nth:
  "n < 100 \<Longrightarrow> uniformFrame ! n = (if n mod 4 = 0 then 1 else if n mod 4 = 3 then 255 else 0)"
  by (simp add: uniformFrame_def)

lemma uniform_luminance:
  assumes "0 \<le> y" "y < 5" "0 \<le> x" "x < 5"
  shows "luminance uniformFrame 5 (y, x) = Some (1 / 3)"
proof -
  obtain a where a: "y = int a" using assms(1) by (rule nonneg_int_cases)
  obtain b where b: "x = int b" using assms(3) by (rule nonneg_int_cases)
  define n where "n = 4 * (a * 5 + b)"
  have ab: "a < 5" "b < 5" using assms(2,4) a b by simp_all
  have len: "length uniformFrame = 100" by (simp add: uniformFrame_def)
  have lt: "n < 100" "n + 1 < 100" "n + 2 < 100" using ab by (simp_all add: n_def)
  have m: "n mod 4 = 0" "(n + 1) mod 4 = 1" "(n + 2) mod 4 = 2"
    unfolding n_def by presburger+
  have i: "(y * 5 + x) * 4 = int n" by (simp add: a b n_def)
  have r: "image_at uniformFrame (int n) = Some 1"
    using lt(1) m(1) by (simp add: image_at_nat len uniformFrame_nth)
  have "image_at uniformFrame (int (n + 1)) = Some 0"
    using lt(2) m(2) by (simp only: image_at_nat len uniformFrame_nth) simp
  then have g: "image_at uniformFrame (int n + 1) = Some 0" by (simp add: add.commute)
  have "image_at uniformFrame (int (n + 2)) = Some 0"
    using lt(3) m(3) by (simp only: image_at_nat len uniformFrame_nth) simp
  then have bl: "image_at uniformFrame (int n + 2) = Some 0" by (simp add: add.commute)
  show ?thesis
    unfolding luminance_def prod.case i r g bl by simp
qed

lemma variance_of_replicate: "variance_of (replicate n k) = 0"
proof (cases "n = 0")
  case True
  then show ?thesis by (simp add: variance_of_def)
next
  case False
  then have "mean_of (replicate n k) = k" by (simp add: mean_of_def sum_list_replicate)
  then show ?thesis by (simp add: variance_of_def sum_list_replicate)
qed

lemma uniform_variance:
  assumes "0 \<le> x0" "0 \<le> y0" "x0 + w \<le> 5" "y0 + h \<le> 5" "0 < w" "0 < h"
  shows "luminance_variance uniformFrame 5 x0 y0 w h = Some 0"
proof -
  let ?ps = "rectangle x0 y0 w h"
  have "luminance uniformFrame 5 p = Some (1 / 3)" if "p \<in> set ?ps" for p
  proof -
    obtain y x where p: "p = (y, x)" by (cases p)
    from that assms have "0 \<le> y" "y < 5" "0 \<le> x" "x < 5"
      by (auto simp: rectangle_def p)
    then show ?thesis unfolding p by (rule uniform_luminance)
  qed
  then have ls: "map (luminance uniformFrame 5) ?ps = replicate (length ?ps) (Some (1 / 3))"
    by (simp add: map_replicate_const [symmetric] cong: map_cong)
  have ne: "?ps \<noteq> []" using assms(5,6) by (simp add: rectangle_empty)
  show ?thesis
    unfolding luminance_variance_def ls Let_def using ne
    by (simp add: variance_of_replicate)
qed

lemma uniform_exact:
  "centralVariance 5 5 uniformFrame = Some 0"
  "meanEdgeVariance 5 5 uniformFrame = Some 0"
  by (simp_all add: centralVariance_def meanEdgeVariance_def edgeVariances_def
        floor_fifth floor_three_fifths uniform_variance mean_of_def Let_def)

text \<open>
  In doubles the luminance \<open>1 / 3\<close> is rounded, and so are the sums: the variance of the
  central region comes out as \<open>2 ^ -55\<close> and the variance of each strip as \<open>2 ^ -56\<close>.
\<close>

lemmas region_eval = region_def region_pixel_def image_at_def dbl_simps upto_rec1

lemma uniform_central:
  "variance (region uniformFrame 5 1 1 3 3) = Some (1 / 36028797018963968)"
  by (simp add: region_eval uniformFrame_def fl64_eval)

lemma uniform_left:
  "variance (region uniformFrame 5 0 0 1 5) = Some (1 / 72057594037927936)"
  by (simp add: region_eval uniformFrame_def fl64_eval)

lemma uniform_right:
  "variance (region uniformFrame 5 4 0 1 5) = Some (1 / 72057594037927936)"
  by (simp add: region_eval uniformFrame_def fl64_eval)

lemma uniform_top:
  "variance (region uniformFrame 5 0 0 5 1) = Some (1 / 72057594037927936)"
  by (simp add: region_eval uniformFrame_def fl64_eval)

lemma uniform_bottom:
  "variance (region uniformFrame 5 0 4 5 1) = Some (1 / 72057594037927936)"
  by (simp add: region_eval uniformFrame_def fl64_eval)

lemma floors5:
  "\<lfloor>fl64 (of_nat 5 * fl64 0.2)\<rfloor> = 1" "\<lfloor>fl64 (of_nat 5 * fl64 0.6)\<rfloor> = 3"
  by (simp_all add: fl64_eval)

lemma uniform_doubles:
  "centralVariance64 5 5 uniformFrame = Some (1 / 36028797018963968)"
  "meanEdgeVariance64 5 5 uniformFrame = Some (1 / 72057594037927936)"
proof -
  show "centralVariance64 5 5 uniformFrame = Some (1 / 36028797018963968)"
    unfolding centralVariance64_def floors5 region_variance64 [symmetric]
    using uniform_central by simp
  have "edgeVariances64 5 5 uniformFrame =
          [Some (1 / 72057594037927936), Some (1 / 72057594037927936),
           Some (1 / 72057594037927936), Some (1 / 72057594037927936)]"
    unfolding edgeVariances64_def floors5 region_variance64 [symmetric] Let_def
    using uniform_left uniform_right uniform_top uniform_bottom by simp
  then show "meanEdgeVariance64 5 5 uniformFrame = Some (1 / 72057594037927936)"
    by (simp add: meanEdgeVariance64_def mean64_def sum64_def fl64_eval)
qed

lemma naive_uniform:
  "naiveDetection 5 5 uniformFrame =
     Some \<lparr>box_x = 1, box_y = 1, box_width = 3, box_height = 3\<rparr>"
  by (simp add: naiveDetection_spec uniform_doubles num_simps dbl_simps fl64_eval)

text \<open>The black frame: every variance is 0, in doubles too.\<close>

lemma black_doubles:
  "centralVariance64 5 5 (replicate 100 0) = Some 0"
  "meanEdgeVariance64 5 5 (replicate 100 0) = Some 0"
  by (simp_all add: centralVariance64_def meanEdgeVariance64_def edgeVariances64_def
        luminance_variance64_def rectangle_def luminance64_def image_at_def variance64_def
        mean64_def sum64_def Let_def upto_rec1 fl64_eval)

lemma naive_black5: "naiveDetection 5 5 (replicate 100 0) = None"
  by (simp add: naiveDetection_spec black_doubles num_simps dbl_simps fl64_eval)

text \<open>The frame with a white pixel in the middle.\<close>

lemma bright_central:
  "variance (region brightCentre 5 1 1 3 3) =
     Some (1765327002373689 / 274877906944)"
  by (simp add: region_eval brightCentre_def nth_append fl64_eval)

lemma bright_edges:
  "variance (region brightCentre 5 0 0 1 5) = Some 0"
  "variance (region brightCentre 5 4 0 1 5) = Some 0"
  "variance (region brightCentre 5 0 0 5 1) = Some 0"
  "variance (region brightCentre 5 0 4 5 1) = Some 0"
  by (simp_all add: region_eval brightCentre_def nth_append fl64_eval)

lemma naive_bright:
  "naiveDetection 5 5 brightCentre =
     Some \<lparr>box_x = 1, box_y = 1, box_width = 3, box_height = 3\<rparr>"
proof -
  have "centralVariance64 5 5 brightCentre = Some (1765327002373689 / 274877906944)"
    unfolding centralVariance64_def floors5 region_variance64 [symmetric]
    using bright_central by simp
  moreover have "edgeVariances64 5 5 brightCentre = [Some 0, Some 0, Some 0, Some 0]"
    unfolding edgeVariances64_def floors5 region_variance64 [symmetric] Let_def
    using bright_edges by simp
  then have "meanEdgeVariance64 5 5 brightCentre = Some 0"
    by (simp add: meanEdgeVariance64_def mean64_def sum64_def fl64_eval)
  ultimately show ?thesis
    by (simp add: naiveDetection_spec num_simps dbl_simps fl64_eval)
qed

subsection \<open>The loops of diffInRegion compute the fraction of changed pixels\<close>

lemma diff_pixel_changed:
  "diff_pixel a b (int (img_width a)) y x (t, c) =
     (t + 1, if pixelChanged a b (y, x) then c + 1 else c)"
  by (auto simp: diff_pixel_def pixelChanged_def Let_def num_simps split: option.splits)

lemma fold_diff_pixel:
  "fold (\<lambda>p. diff_pixel a b (int (img_width a)) (fst p) (snd p)) ps (t, c) =
     (t + length ps, c + length (filter (pixelChanged a b) ps))"
proof (induction ps arbitrary: t c)
  case Nil
  show ?case by simp
next
  case (Cons p ps)
  obtain y x where p: "p = (y, x)" by (cases p)
  show ?case by (simp add: p diff_pixel_changed Cons.IH)
qed

lemma diffInRegion_fraction:
  "diffInRegion a b rx ry rw rh = changedFraction a b (rectangle rx ry rw rh)"
  by (simp add: diffInRegion_def changedFraction_def fold_rows fold_diff_pixel rectangle_def)

text \<open>The band that \<open>computeEyeBand\<close> cuts is the eye band of the box, in doubles.\<close>

lemma computeEyeBand_eyeBand64:
  "computeEyeBand box = (ex, ey, ew, eh) \<Longrightarrow> rectangle ex ey ew eh = eyeBand64 box"
  unfolding computeEyeBand_def eyeBand64_def Let_def fl64_quarter by auto

text \<open>It is the band of exact quarters when these are doubles.\<close>

lemma eyeBand64_exact:
  assumes "fl64 (box_height box / 4) = box_height box / 4"
      and "fl64 (box_y box + box_height box / 4) = box_y box + box_height box / 4"
  shows "eyeBand64 box = eyeBand box"
  unfolding eyeBand64_def eyeBand_def assms by (rule refl)

lemma pixelChanged_same: "\<not> pixelChanged a a p"
  by (auto simp: pixelChanged_def Let_def num_absdiff_def split: option.splits prod.splits)

lemma changedFraction_same: "changedFraction a a ps = 0"
  by (simp add: changedFraction_def pixelChanged_same)

lemma checkBlink_scores:
  assumes "detectFaceBox pf (cnv (capture pf s)) = Inr (Some box)"
      and "getImageData (cnv (capture pf s)) = Inr a"
      and "getImageData (cnv (capture pf (wait pf 140 (capture pf s)))) = Inr b"
      and "getImageData (cnv (capture pf (wait pf 140 (capture pf (wait pf 140 (capture pf s)))))) = Inr c"
  shows "checkBlink pf s =
           Inr (max (changedFraction a b (eyeBand64 box))
                    (changedFraction b c (eyeBand64 box)) > 0.06,
                capture pf (wait pf 140 (capture pf (wait pf 140 (capture pf s)))))"
proof -
  obtain ex ey ew eh where band: "computeEyeBand box = (ex, ey, ew, eh)"
    by (cases "computeEyeBand box") auto
  show ?thesis
    using assms band
    by (simp add: checkBlink_def Let_def diffInRegion_fraction computeEyeBand_eyeBand64)
qed

lemmas sample_defs = capture_def captureToCanvas_def wait_def detectFaceBox_def faceAt_def
  getImageData_def atStart_def emptyCanvas_def liveFace_def stillFace_def Let_def

lemma liveFace_box:
  "detectFaceBox liveFace (cnv (capture liveFace atStart)) =
     Inr (Some \<lparr>box_x = 0, box_y = 0, box_width = 1, box_height = 4\<rparr>)"
  by (simp add: sample_defs)

lemma liveFace_band:
  "eyeBand64 \<lparr>box_x = 0, box_y = 0, box_width = 1, box_height = 4\<rparr> = [(1, 0)]"
  "eyeBand \<lparr>box_x = 0, box_y = 0, box_width = 1, box_height = 4\<rparr> = [(1, 0)]"
  by (simp_all add: eyeBand64_def eyeBand_def rectangle_def upto_rec1 fl64_one)

lemma liveFace_frames:
  "getImageData (cnv (capture liveFace atStart)) = Inr frameA"
  "getImageData (cnv (capture liveFace (wait liveFace 140 (capture liveFace atStart)))) = Inr frameB"
  "getImageData (cnv (capture liveFace (wait liveFace 140
      (capture liveFace (wait liveFace 140 (capture liveFace atStart)))))) = Inr frameC"
  by (simp_all add: sample_defs frameA_def frameB_def frameC_def)

lemma fraction_AB: "changedFraction frameA frameB [(1, 0)] = 1"
  by (simp add: changedFraction_def pixelChanged_def image_at_def num_simps
        frameA_def frameB_def Let_def)

lemma stillFace_frames:
  "cnv (capture stillFace atStart) = cnv (capture stillFace (wait stillFace 140 (capture stillFace atStart)))"
  "cnv (capture stillFace (wait stillFace 140 (capture stillFace atStart))) =
   cnv (capture stillFace (wait stillFace 140 (capture stillFace (wait stillFace 140 (capture stillFace atStart)))))"
  by (simp_all add: sample_defs)

subsection \<open>Capturing and locating\<close>

text \<open>The clock never goes back.\<close>

lemma now_capture: "now (capture pf s) = now s"
  by (simp add: capture_def)

lemma now_wait: "now (wait pf ms s) = now s + ms + int (timerLag pf (now s))"
  by (simp add: wait_def)

lemma checkMovement_now: "checkMovement pf dir s = Inr (p, s') \<Longrightarrow> now s \<le> now s'"
  by (auto simp: checkMovement_def Let_def now_capture now_wait
           split: sum.splits option.splits prod.splits)

lemma checkBlink_now: "checkBlink pf s = Inr (p, s') \<Longrightarrow> now s \<le> now s'"
  by (auto simp: checkBlink_def Let_def now_capture now_wait
           split: sum.splits option.splits prod.splits)

lemma attempt_now: "attempt pf ch p0 s = Inr (p, s') \<Longrightarrow> now s \<le> now s'"
  by (auto simp: attempt_def dest: checkMovement_now checkBlink_now split: Challenge.splits)

lemma captureToCanvas_ctx: "cv_ctx (captureToCanvas v cv) = cv_ctx cv"
  by (simp add: captureToCanvas_def Let_def)

lemma captureToCanvas_size:
  "cv_ctx cv \<Longrightarrow> 0 < cv_width (captureToCanvas v cv) \<and> 0 < cv_height (captureToCanvas v cv)"
  by (simp add: captureToCanvas_def Let_def)

lemma captureToCanvas_clean: "cv_ctx cv \<Longrightarrow> cv_clean (captureToCanvas v cv)"
  by (simp add: captureToCanvas_def Let_def)

lemma captureToCanvas_again: "captureToCanvas v (captureToCanvas v' cv) = captureToCanvas v cv"
  by (simp add: captureToCanvas_def Let_def)

lemma cnv_capture: "cnv (capture pf s) = captureToCanvas (video pf (now s)) (cnv s)"
  by (simp add: capture_def)

lemma cnv_wait: "cnv (wait pf ms s) = cnv s"
  by (simp add: wait_def)

lemma getImageData_sized:
  "cv_ctx cv \<Longrightarrow> 0 < cv_width cv \<Longrightarrow> 0 < cv_height cv \<Longrightarrow> cv_clean cv \<Longrightarrow>
   getImageData cv =
     Inr \<lparr>img_width = cv_width cv, img_height = cv_height cv, img_data = cv_data cv\<rparr>"
  by (simp add: getImageData_def)

lemma detectFaceBox_sized:
  assumes "cv_ctx cv \<longrightarrow> 0 < cv_width cv \<and> 0 < cv_height cv \<and> cv_clean cv"
  shows "\<exists>r. detectFaceBox pf cv = Inr r"
  using assms
  by (auto simp: detectFaceBox_def getImageData_def split: sum.splits list.splits option.splits)

text \<open>Inside a run every frame is located right after a capture, which cannot fail.\<close>

lemma detectFaceBox_captured: "\<exists>r. detectFaceBox pf (captureToCanvas v cv) = Inr r"
  by (rule detectFaceBox_sized)
     (simp add: captureToCanvas_ctx captureToCanvas_size captureToCanvas_clean)

lemma detectFaceBox_Some_ctx: "detectFaceBox pf cv = Inr (Some box) \<Longrightarrow> cv_ctx cv"
  by (auto simp: detectFaceBox_def split: if_splits)

lemma blackVideo_none:
  "detectFaceBox blackVideo (captureToCanvas (video blackVideo t) emptyCanvas) = Inr None"
  by (simp add: detectFaceBox_def blackVideo_def emptyCanvas_def captureToCanvas_def
        getImageData_def naive_black5)

lemma turningHead_first:
  "detectFaceBox turningHead (cnv (capture turningHead atStart)) =
     Inr (Some \<lparr>box_x = 100, box_y = 50, box_width = 200, box_height = 200\<rparr>)"
  by (simp add: detectFaceBox_def turningHead_def atStart_def emptyCanvas_def capture_def
        captureToCanvas_def)

lemma turningHead_second:
  "detectFaceBox turningHead
     (cnv (capture turningHead (wait turningHead 700 (capture turningHead atStart)))) =
     Inr (Some \<lparr>box_x = 80, box_y = 50, box_width = 200, box_height = 200\<rparr>)"
  by (simp add: detectFaceBox_def turningHead_def atStart_def emptyCanvas_def capture_def
        captureToCanvas_def wait_def)

lemma slidingHead_first:
  "detectFaceBox slidingHead (cnv (capture slidingHead atStart)) =
     Inr (Some \<lparr>box_x = 5404319552844595 / 18014398509481984, box_y = 50,
                 box_width = 200, box_height = 200\<rparr>)"
  by (simp add: detectFaceBox_def slidingHead_def atStart_def emptyCanvas_def capture_def
        captureToCanvas_def)

lemma slidingHead_second:
  "detectFaceBox slidingHead
     (cnv (capture slidingHead (wait slidingHead 700 (capture slidingHead atStart)))) =
     Inr (Some \<lparr>box_x = 2899192260119757 / 281474976710656, box_y = 50,
                 box_width = 200, box_height = 200\<rparr>)"
  by (simp add: detectFaceBox_def slidingHead_def atStart_def emptyCanvas_def capture_def
        captureToCanvas_def wait_def)

subsection \<open>Every evaluator and every loop returns\<close>

lemma notified_capture: "notified (capture pf s) = notified s"
  by (simp add: capture_def)

lemma notified_wait: "notified (wait pf ms s) = notified s"
  by (simp add: wait_def)

lemma cnv_ctx_capture: "cv_ctx (cnv (capture pf s)) = cv_ctx (cnv s)"
  by (simp add: cnv_capture captureToCanvas_ctx)

lemma detect_capture: "\<exists>r. detectFaceBox pf (cnv (capture pf s)) = Inr r"
  by (simp add: cnv_capture detectFaceBox_captured)

lemma getImageData_capture:
  "cv_ctx (cnv s) \<Longrightarrow> \<exists>a. getImageData (cnv (capture pf s)) = Inr a"
  by (simp add: cnv_capture getImageData_sized captureToCanvas_ctx captureToCanvas_size
        captureToCanvas_clean)

lemma checkMovement_total:
  "\<exists>p s'. checkMovement pf dir s = Inr (p, s') \<and> notified s' = notified s"
proof -
  obtain b1 where b1: "detectFaceBox pf (cnv (capture pf s)) = Inr b1"
    using detect_capture by blast
  obtain b2 where b2: "detectFaceBox pf (cnv (capture pf (wait pf 700 (capture pf s)))) = Inr b2"
    using detect_capture by blast
  show ?thesis
    by (cases b1; cases b2)
       (auto simp: checkMovement_def Let_def b1 b2 notified_capture notified_wait)
qed

lemma checkBlink_total:
  "\<exists>p s'. checkBlink pf s = Inr (p, s') \<and> notified s' = notified s"
proof -
  let ?s1 = "capture pf s"
  let ?s2 = "capture pf (wait pf 140 ?s1)"
  let ?s3 = "capture pf (wait pf 140 ?s2)"
  obtain b1 where b1: "detectFaceBox pf (cnv ?s1) = Inr b1"
    using detect_capture by blast
  show ?thesis
  proof (cases b1)
    case None
    with b1 show ?thesis by (auto simp: checkBlink_def notified_capture)
  next
    case (Some box)
    with b1 have ctx1: "cv_ctx (cnv ?s1)" by (auto dest: detectFaceBox_Some_ctx)
    then have ctx0: "cv_ctx (cnv s)" by (simp add: cnv_ctx_capture)
    have ctx2: "cv_ctx (cnv (wait pf 140 ?s1))" using ctx1 by (simp add: cnv_wait)
    then have ctx3: "cv_ctx (cnv (wait pf 140 ?s2))" by (simp add: cnv_wait cnv_ctx_capture)
    obtain a where a: "getImageData (cnv ?s1) = Inr a"
      using getImageData_capture [OF ctx0] by blast
    obtain b where b: "getImageData (cnv ?s2) = Inr b"
      using getImageData_capture [OF ctx2] by blast
    obtain c where c: "getImageData (cnv ?s3) = Inr c"
      using getImageData_capture [OF ctx3] by blast
    show ?thesis
      using b1 Some a b c
      by (auto simp: checkBlink_def Let_def notified_capture notified_wait split: prod.splits)
  qed
qed

lemma attempt_total:
  "\<exists>p s'. attempt pf ch p0 s = Inr (p, s') \<and> notified s' = notified s"
  by (cases ch) (auto simp: attempt_def checkBlink_total checkMovement_total)

lemma challengeLoop_total:
  "\<exists>p s'. challengeLoop pf ch deadline p0 s = Inr (p, s') \<and> notified s' = notified s"
proof (induction pf ch deadline p0 s rule: challengeLoop.induct)
  case (1 pf ch deadline p s)
  show ?case
  proof (cases "\<not> p \<and> now s < deadline")
    case False
    then show ?thesis by (subst challengeLoop.simps) auto
  next
    case True
    obtain p1 s1 where at: "attempt pf ch p s = Inr (p1, s1)" and n1: "notified s1 = notified s"
      using attempt_total by blast
    from "1.IH" [OF True at refl]
    obtain p2 s2 where
      "challengeLoop pf ch deadline p1 (if \<not> p1 then wait pf 300 s1 else s1) = Inr (p2, s2)"
      "notified s2 = notified (if \<not> p1 then wait pf 300 s1 else s1)"
      by blast
    with True at n1 show ?thesis
      by (subst challengeLoop.simps) (auto simp: notified_wait)
  qed
qed

lemma runChallenges_shape:
  "\<exists>r s'. runChallenges pf chs sts s = Inr (r, s') \<and>
     ((alive r \<and> reason r = None \<and> steps r = sts @ map (\<lambda>c. logged c True) chs \<and>
       notified s' = notified s @ chs) \<or>
      (\<exists>pre c post. chs = pre @ c # post \<and> \<not> alive r \<and>
         reason r = Some (''Falha no desafio: '' @ challengeName c) \<and>
         steps r = sts @ map (\<lambda>c. logged c True) pre @ [logged c False] \<and>
         notified s' = notified s @ pre @ [c]))"
proof (induction chs arbitrary: sts s)
  case Nil
  show ?case by simp
next
  case (Cons ch chs)
  let ?s0 = "onChallenge ch s"
  obtain p s1 where loop: "challengeLoop pf ch (now ?s0 + 5000) False ?s0 = Inr (p, s1)"
    and n1: "notified s1 = notified s @ [ch]"
    using challengeLoop_total [of pf ch "now ?s0 + 5000" False ?s0]
    by (auto simp: onChallenge_def)
  show ?case
  proof (cases p)
    case False
    have "runChallenges pf (ch # chs) sts s =
            Inr (\<lparr>alive = False, reason = Some (''Falha no desafio: '' @ challengeName ch),
                  steps = sts @ [logged ch False]\<rparr>, s1)"
      using loop False by (simp add: Let_def)
    moreover have "ch # chs = [] @ ch # chs" by simp
    ultimately show ?thesis using n1
      by (intro exI conjI disjI2) (assumption | simp)+
  next
    case True
    have run: "runChallenges pf (ch # chs) sts s = runChallenges pf chs (sts @ [logged ch True]) s1"
      using loop True by (simp add: Let_def)
    from Cons.IH [of "sts @ [logged ch True]" s1]
    obtain r s' where rest: "runChallenges pf chs (sts @ [logged ch True]) s1 = Inr (r, s')"
      and shape: "(alive r \<and> reason r = None \<and>
           steps r = (sts @ [logged ch True]) @ map (\<lambda>c. logged c True) chs \<and>
           notified s' = notified s1 @ chs) \<or>
        (\<exists>pre c post. chs = pre @ c # post \<and> \<not> alive r \<and>
           reason r = Some (''Falha no desafio: '' @ challengeName c) \<and>
           steps r = (sts @ [logged ch True]) @ map (\<lambda>c. logged c True) pre @ [logged c False] \<and>
           notified s' = notified s1 @ pre @ [c])"
      by blast
    from shape show ?thesis
    proof
      assume "alive r \<and> reason r = None \<and>
           steps r = (sts @ [logged ch True]) @ map (\<lambda>c. logged c True) chs \<and>
           notified s' = notified s1 @ chs"
      then show ?thesis using run rest n1 by auto
    next
      assume "\<exists>pre c post. chs = pre @ c # post \<and> \<not> alive r \<and>
           reason r = Some (''Falha no desafio: '' @ challengeName c) \<and>
           steps r = (sts @ [logged ch True]) @ map (\<lambda>c. logged c True) pre @ [logged c False] \<and>
           notified s' = notified s1 @ pre @ [c]"
      then obtain pre c post where f: "chs = pre @ c # post" "\<not> alive r"
           "reason r = Some (''Falha no desafio: '' @ challengeName c)"
           "steps r = (sts @ [logged ch True]) @ map (\<lambda>c. logged c True) pre @ [logged c False]"
           "notified s' = notified s1 @ pre @ [c]"
        by blast
      have "ch # chs = (ch # pre) @ c # post" using f(1) by simp
      moreover have "steps r = sts @ map (\<lambda>c. logged c True) (ch # pre) @ [logged c False]"
        using f(4) by simp
      moreover have "notified s' = notified s @ (ch # pre) @ [c]" using f(5) n1 by simp
      ultimately show ?thesis using run rest f(2,3)
        by (intro exI conjI disjI2) (assumption | simp)+
    qed
  qed
qed

subsection \<open>The shape of every run\<close>

lemma waitForFacePresent_loop_total:
  "\<exists>p s'. waitForFacePresent_loop pf maxMs start s = Inr (p, s') \<and> notified s' = notified s"
proof (induction pf maxMs start s rule: waitForFacePresent_loop.induct)
  case (1 pf maxMs start s)
  show ?case
  proof (cases "now s - start < maxMs")
    case False
    then show ?thesis by (subst waitForFacePresent_loop.simps) auto
  next
    case True
    obtain b where b: "detectFaceBox pf (cnv (capture pf s)) = Inr b"
      using detect_capture by blast
    show ?thesis
    proof (cases b)
      case (Some box)
      with True b show ?thesis
        by (subst waitForFacePresent_loop.simps) (auto simp: notified_capture)
    next
      case None
      from "1.IH" [OF True refl b None]
      obtain p s' where
        "waitForFacePresent_loop pf maxMs start (wait pf 200 (capture pf s)) = Inr (p, s')"
        "notified s' = notified (wait pf 200 (capture pf s))"
        by blast
      with True b None show ?thesis
        by (subst waitForFacePresent_loop.simps) (auto simp: notified_capture notified_wait)
    qed
  qed
qed

lemma waitForFacePresent_loop_no_face:
  assumes "\<And>t. start \<le> t \<Longrightarrow> t < start + maxMs \<Longrightarrow>
             detectFaceBox pf (captureToCanvas (video pf t) cv) = Inr None"
      and "\<forall>v. captureToCanvas v (cnv s) = captureToCanvas v cv"
      and "start \<le> now s"
  shows "\<exists>s'. waitForFacePresent_loop pf maxMs start s = Inr (False, s') \<and>
              notified s' = notified s"
  using assms
proof (induction pf maxMs start s rule: waitForFacePresent_loop.induct)
  case (1 pf maxMs start s)
  show ?case
  proof (cases "now s - start < maxMs")
    case False
    then show ?thesis by (subst waitForFacePresent_loop.simps) auto
  next
    case True
    have none: "detectFaceBox pf (cnv (capture pf s)) = Inr None"
      using "1.prems"(1) [of "now s"] "1.prems"(2,3) True by (simp add: cnv_capture)
    have "\<exists>s'. waitForFacePresent_loop pf maxMs start (wait pf 200 (capture pf s)) = Inr (False, s')
            \<and> notified s' = notified (wait pf 200 (capture pf s))"
    proof (rule "1.IH" [OF True refl none refl])
      show "\<forall>v. captureToCanvas v (cnv (wait pf 200 (capture pf s))) = captureToCanvas v cv"
        using "1.prems"(2) by (simp add: cnv_wait cnv_capture captureToCanvas_again)
      show "start \<le> now (wait pf 200 (capture pf s))"
        using "1.prems"(3) by (simp add: now_wait now_capture)
    qed (use "1.prems"(1) in blast)
    with True none show ?thesis
      by (subst waitForFacePresent_loop.simps) (auto simp: notified_capture notified_wait)
  qed
qed

text \<open>The run when the prepare gate sees no face.\<close>

lemma run_no_face:
  assumes "\<And>t. now s \<le> t \<Longrightarrow> t < now s + 5000 \<Longrightarrow>
             detectFaceBox pf (captureToCanvas (video pf t) (cnv s)) = Inr None"
  shows "\<exists>s'. runLivenessSequence pf s =
            Inr (\<lparr>alive = False, reason = Some noFaceText, steps = [logged Prepare False]\<rparr>, s')
          \<and> notified s' = notified s @ [Prepare]"
proof -
  let ?s0 = "onChallenge Prepare s"
  have "\<exists>s'. waitForFacePresent_loop pf 5000 (now ?s0) ?s0 = Inr (False, s') \<and>
              notified s' = notified ?s0"
  proof (rule waitForFacePresent_loop_no_face)
    fix t assume "now ?s0 \<le> t" "t < now ?s0 + 5000"
    then show "detectFaceBox pf (captureToCanvas (video pf t) (cnv s)) = Inr None"
      using assms [of t] by (simp add: onChallenge_def)
  qed (simp_all add: onChallenge_def)
  then show ?thesis
    by (auto simp: runLivenessSequence_def waitForFacePresent_def Let_def onChallenge_def)
qed

lemma run_shape:
  "\<exists>r s'. runLivenessSequence pf s = Inr (r, s') \<and>
     ((alive r \<and> reason r = None \<and> steps r = map (\<lambda>c. logged c True) (Prepare # challenges) \<and>
       notified s' = notified s @ Prepare # challenges) \<or>
      (\<not> alive r \<and> reason r = Some noFaceText \<and> steps r = [logged Prepare False] \<and>
       notified s' = notified s @ [Prepare]) \<or>
      (\<exists>pre c post. challenges = pre @ c # post \<and> \<not> alive r \<and>
         reason r = Some (''Falha no desafio: '' @ challengeName c) \<and>
         steps r = map (\<lambda>c. logged c True) (Prepare # pre) @ [logged c False] \<and>
         notified s' = notified s @ Prepare # pre @ [c]))"
proof -
  let ?s0 = "onChallenge Prepare s"
  obtain ready s1 where w: "waitForFacePresent pf 5000 ?s0 = Inr (ready, s1)"
    and n1: "notified s1 = notified s @ [Prepare]"
    using waitForFacePresent_loop_total [of pf 5000 "now ?s0" ?s0]
    by (auto simp: waitForFacePresent_def onChallenge_def)
  show ?thesis
  proof (cases ready)
    case False
    with w n1 show ?thesis by (simp add: runLivenessSequence_def Let_def)
  next
    case True
    then have run: "runLivenessSequence pf s = runChallenges pf challenges [logged Prepare True] s1"
      using w by (simp add: runLivenessSequence_def Let_def)
    from runChallenges_shape [of pf challenges "[logged Prepare True]" s1]
    show ?thesis unfolding run using n1 by (auto; fastforce)
  qed
qed

lemma challengeName_not_prepare: "c \<in> set challenges \<Longrightarrow> challengeName c \<noteq> ''prepare''"
  by (auto simp: challenges_def)

subsection \<open>Three runs, evaluated\<close>

lemmas eval_defs = runLivenessSequence_def waitForFacePresent_def challenges_def
  waitForFacePresent_loop.simps challengeLoop.simps
  onChallenge_def capture_def captureToCanvas_def wait_def detectFaceBox_def faceAt_def
  attempt_def checkBlink_def checkMovement_def computeEyeBand_def getImageData_def
  diffInRegion_def diff_pixel_def image_at_def num_absdiff_def num_add_def num_div_def num_gt_def
  atStart_def emptyCanvas_def Let_def upto_rec1 fl64_eval

lemma liveFace_run:
  "runLivenessSequence liveFace atStart =
     Inr (\<lparr>alive = True, reason = None,
           steps = [logged Prepare True, logged Blink True, logged TurnLeft True, logged TurnRight True]\<rparr>,
          \<lparr>now = 1680,
            cnv = \<lparr>cv_ctx = True, cv_width = 1, cv_height = 2,
                   cv_data = [50, 0, 0, 255, 255, 255, 255, 255], cv_clean = True\<rparr>,
            notified = [Prepare, Blink, TurnLeft, TurnRight]\<rparr>)"
  by (simp add: eval_defs liveFace_def)

lemma stillFace_run:
  "runLivenessSequence stillFace atStart =
     Inr (\<lparr>alive = False, reason = Some ''Falha no desafio: blink'',
           steps = [logged Prepare True, logged Blink False]\<rparr>,
          \<lparr>now = 5220,
            cnv = \<lparr>cv_ctx = True, cv_width = 1, cv_height = 2,
                   cv_data = [0, 0, 0, 255, 0, 0, 0, 255], cv_clean = True\<rparr>,
            notified = [Prepare, Blink]\<rparr>)"
  by (simp add: eval_defs stillFace_def)

lemma blackVideo_run:
  "runLivenessSequence blackVideo atStart =
     Inr (\<lparr>alive = False, reason = Some noFaceText, steps = [logged Prepare False]\<rparr>,
          \<lparr>now = 5000, cnv = blackCanvas, notified = [Prepare]\<rparr>)"
  by (simp add: eval_defs blackVideo_def blackCanvas_def naive_black5)

lemma notified_atStart: "notified atStart = []"
  by (simp add: atStart_def)

lemma noContext_none: "detectFaceBox pf (captureToCanvas v (cnv noContext)) = Inr None"
  by (simp add: detectFaceBox_def captureToCanvas_def noContext_def)

subsection \<open>The result of a run\<close>

text \<open>
  Claim C1. Every run of \<open>runLivenessSequence\<close> returns a result (it neither raises nor
  loops). In that result \<open>alive\<close> is true exactly when every logged step has passed, and
  \<open>reason\<close> is present exactly when \<open>alive\<close> is false. When \<open>alive\<close> is false the failing
  step is the last one logged and the only one that has not passed, and \<open>reason\<close> is the
  text of that step: the face-not-detected text of line 170 for the step \<open>prepare\<close>, and
  \<open>Falha no desafio: \<close> followed by the step's name for a challenge.
\<close>

theorem run_result_invariant:
  "\<exists>r s'. runLivenessSequence pf s = Inr (r, s') \<and>
     (alive r \<longleftrightarrow> (\<forall>st \<in> set (steps r). passed st)) \<and>
     (reason r \<noteq> None \<longleftrightarrow> \<not> alive r) \<and>
     (\<not> alive r \<longrightarrow>
        (\<exists>pre f. steps r = pre @ [f] \<and> (\<forall>st \<in> set pre. passed st) \<and> \<not> passed f \<and>
           reason r = Some (if name f = ''prepare'' then noFaceText
                            else ''Falha no desafio: '' @ name f)))"
proof -
  obtain r s' where run: "runLivenessSequence pf s = Inr (r, s')"
    and shape: "(alive r \<and> reason r = None \<and> steps r = map (\<lambda>c. logged c True) (Prepare # challenges) \<and>
       notified s' = notified s @ Prepare # challenges) \<or>
      (\<not> alive r \<and> reason r = Some noFaceText \<and> steps r = [logged Prepare False] \<and>
       notified s' = notified s @ [Prepare]) \<or>
      (\<exists>pre c post. challenges = pre @ c # post \<and> \<not> alive r \<and>
         reason r = Some (''Falha no desafio: '' @ challengeName c) \<and>
         steps r = map (\<lambda>c. logged c True) (Prepare # pre) @ [logged c False] \<and>
         notified s' = notified s @ Prepare # pre @ [c])"
    using run_shape by blast
  from shape consider
      (ok) "alive r" "reason r = None" "steps r = map (\<lambda>c. logged c True) (Prepare # challenges)"
    | (gate) "\<not> alive r" "reason r = Some noFaceText" "steps r = [logged Prepare False]"
    | (chal) pre c post where "challenges = pre @ c # post" "\<not> alive r"
         "reason r = Some (''Falha no desafio: '' @ challengeName c)"
         "steps r = map (\<lambda>c. logged c True) (Prepare # pre) @ [logged c False]"
    by (elim disjE conjE exE) blast+
  then have "(alive r \<longleftrightarrow> (\<forall>st \<in> set (steps r). passed st)) \<and>
     (reason r \<noteq> None \<longleftrightarrow> \<not> alive r) \<and>
     (\<not> alive r \<longrightarrow>
        (\<exists>pre f. steps r = pre @ [f] \<and> (\<forall>st \<in> set pre. passed st) \<and> \<not> passed f \<and>
           reason r = Some (if name f = ''prepare'' then noFaceText
                            else ''Falha no desafio: '' @ name f)))"
  proof cases
    case ok
    then show ?thesis by (auto simp: logged_def)
  next
    case gate
    then show ?thesis by (auto simp: logged_def)
  next
    case (chal pre c post)
    have "c \<in> set challenges"
      unfolding chal(1) by simp
    then have c: "challengeName c \<noteq> ''prepare''"
      by (rule challengeName_not_prepare)
    have "steps r = map (\<lambda>c. logged c True) (Prepare # pre) @ [logged c False] \<and>
          (\<forall>st \<in> set (map (\<lambda>c. logged c True) (Prepare # pre)). passed st) \<and>
          \<not> passed (logged c False) \<and>
          reason r = Some (if name (logged c False) = ''prepare'' then noFaceText
                            else ''Falha no desafio: '' @ name (logged c False))"
      using chal c by (auto simp: logged_def)
    then have "\<exists>pre f. steps r = pre @ [f] \<and> (\<forall>st \<in> set pre. passed st) \<and> \<not> passed f \<and>
           reason r = Some (if name f = ''prepare'' then noFaceText
                            else ''Falha no desafio: '' @ name f)"
      by blast
    moreover have "\<not> (\<forall>st \<in> set (steps r). passed st)"
      using chal(4) by (auto simp: logged_def)
    ultimately show ?thesis using chal(2,3) by simp
  qed
  with run show ?thesis by blast
qed

text \<open>A run that passes its four steps, and a run that fails at the blink.\<close>

theorem run_result_invariant_witness:
  "(\<exists>s'. runLivenessSequence liveFace atStart =
       Inr (\<lparr>alive = True, reason = None,
             steps = [logged Prepare True, logged Blink True, logged TurnLeft True,
                      logged TurnRight True]\<rparr>, s')) \<and>
   (\<exists>s'. runLivenessSequence stillFace atStart =
       Inr (\<lparr>alive = False, reason = Some ''Falha no desafio: blink'',
             steps = [logged Prepare True] @ [logged Blink False]\<rparr>, s')) \<and>
   name (logged Blink False) = ''blink'' \<and> passed (logged Prepare True) \<and>
   \<not> passed (logged Blink False)"
  using run_result_invariant [of liveFace atStart] run_result_invariant [of stillFace atStart]
  by (simp add: liveFace_run stillFace_run logged_def)

text \<open>
  Claim C2. The steps of a run are \<open>prepare\<close> and then the three configured challenges, each
  announced through \<open>onChallenge\<close> when it is entered. A run that fails at step \<open>k\<close>, that is
  a run that returns with \<open>alive\<close> false having entered \<open>k\<close> steps, has entered the first \<open>k\<close>
  of them in order and returns exactly \<open>k\<close> entries: the first \<open>k - 1\<close> have passed, the
  \<open>k\<close>-th has not and carries the name of the \<open>k\<close>-th step, and \<open>reason\<close> is the text of
  that step.
\<close>

theorem run_fails_at_step:
  assumes "runLivenessSequence pf s = Inr (r, s')"
      and "\<not> alive r"
      and "length (notified s') = length (notified s) + k"
  shows "1 \<le> k \<and> k \<le> 1 + length challenges \<and>
         notified s' = notified s @ take k (Prepare # challenges) \<and>
         length (steps r) = k \<and>
         (\<forall>i < k - 1. passed (steps r ! i)) \<and>
         \<not> passed (steps r ! (k - 1)) \<and>
         name (steps r ! (k - 1)) = challengeName ((Prepare # challenges) ! (k - 1)) \<and>
         reason r = Some (if k = 1 then noFaceText
                          else ''Falha no desafio: '' @ challengeName ((Prepare # challenges) ! (k - 1)))"
proof -
  from run_shape [of pf s] assms(1,2) consider
      (gate) "reason r = Some noFaceText" "steps r = [logged Prepare False]"
             "notified s' = notified s @ [Prepare]"
    | (chal) pre c post where "challenges = pre @ c # post"
         "reason r = Some (''Falha no desafio: '' @ challengeName c)"
         "steps r = map (\<lambda>c. logged c True) (Prepare # pre) @ [logged c False]"
         "notified s' = notified s @ Prepare # pre @ [c]"
    by (elim disjE conjE exE) auto
  then show ?thesis
  proof cases
    case gate
    with assms(3) have "k = 1" by simp
    with gate show ?thesis by (simp add: logged_def)
  next
    case (chal pre c post)
    with assms(3) have k: "k = length pre + 2" by simp
    have nth: "(Prepare # challenges) ! (k - 1) = c"
      unfolding k chal(1) by simp
    have tk: "take k (Prepare # challenges) = Prepare # pre @ [c]"
      unfolding k chal(1) by simp
    have len: "length (steps r) = k"
      unfolding k chal(3) by simp
    have last: "steps r ! (k - 1) = logged c False"
      unfolding k chal(3) by (simp add: nth_append)
    have before: "\<forall>i < k - 1. passed (steps r ! i)"
    proof (intro allI impI)
      fix i assume "i < k - 1"
      then have i: "i < length (map (\<lambda>c. logged c True) (Prepare # pre))" by (simp add: k)
      then have "steps r ! i = map (\<lambda>c. logged c True) (Prepare # pre) ! i"
        unfolding chal(3) by (simp only: nth_append if_True)
      also have "\<dots> = logged ((Prepare # pre) ! i) True"
        using i by (simp only: nth_map length_map)
      finally show "passed (steps r ! i)" by (simp add: logged_def)
    qed
    have "k \<le> 1 + length challenges" unfolding k chal(1) by simp
    with nth tk len last before chal(2,4) k show ?thesis
      by (simp add: logged_def)
  qed
qed

text \<open>On the still video the run fails at step 2, the blink, after 5220 ms.\<close>

theorem run_fails_at_step_witness:
  "runLivenessSequence stillFace atStart =
     Inr (\<lparr>alive = False, reason = Some ''Falha no desafio: blink'',
           steps = [logged Prepare True, logged Blink False]\<rparr>,
          \<lparr>now = 5220,
            cnv = \<lparr>cv_ctx = True, cv_width = 1, cv_height = 2,
                   cv_data = [0, 0, 0, 255, 0, 0, 0, 255], cv_clean = True\<rparr>,
            notified = [Prepare, Blink]\<rparr>) \<and>
   length [Prepare, Blink] = length (notified atStart) + 2 \<and>
   take 2 (Prepare # challenges) = [Prepare, Blink] \<and>
   length [logged Prepare True, logged Blink False] = 2 \<and>
   passed ([logged Prepare True, logged Blink False] ! 0) \<and>
   \<not> passed ([logged Prepare True, logged Blink False] ! (2 - 1)) \<and>
   name ([logged Prepare True, logged Blink False] ! (2 - 1)) = ''blink''"
  using run_fails_at_step [OF stillFace_run, of 2]
  by (simp add: stillFace_run notified_atStart challenges_def)

text \<open>
  Claim C3, amended. When \<open>detectFaceBox\<close> finds no box in any frame that the video shows
  during the 5000 ms after the start of the prepare gate, the run returns \<open>alive\<close> false and
  the single step \<open>prepare\<close>, not passed. Its \<open>reason\<close> is the text of line 170,
  \<open>noFaceText\<close>.
\<close>

theorem prepare_gate_no_face:
  assumes "\<And>t. now s \<le> t \<Longrightarrow> t < now s + 5000 \<Longrightarrow>
             detectFaceBox pf (captureToCanvas (video pf t) (cnv s)) = Inr None"
  shows "\<exists>s'. runLivenessSequence pf s =
            Inr (\<lparr>alive = False, reason = Some noFaceText,
                  steps = [\<lparr>name = ''prepare'', passed = False, details = None\<rparr>]\<rparr>, s')"
  using run_no_face [of s pf] assms by (auto simp: logged_def)

theorem prepare_gate_no_face_witness:
  "\<exists>s'. runLivenessSequence liveFace noContext =
            Inr (\<lparr>alive = False, reason = Some noFaceText,
                  steps = [\<lparr>name = ''prepare'', passed = False, details = None\<rparr>]\<rparr>, s')"
  using prepare_gate_no_face [of noContext liveFace] by (simp add: noContext_none)

text \<open>
  Claim C3 as stated gives the reason as \<open>no_face_detected\<close>. On the black video no face
  is ever found, and the reason returned is another string.
\<close>

theorem prepare_gate_reason_counterexample:
  "runLivenessSequence blackVideo atStart =
     Inr (\<lparr>alive = False, reason = Some noFaceText,
           steps = [\<lparr>name = ''prepare'', passed = False, details = None\<rparr>]\<rparr>,
          \<lparr>now = 5000, cnv = blackCanvas, notified = [Prepare]\<rparr>) \<and>
   noFaceText \<noteq> ''no_face_detected''"
  by (simp add: blackVideo_run logged_def noFaceText_def)

subsection \<open>Locating a face\<close>

text \<open>
  Claim C5, amended. The naive fallback declares a face exactly when the two quantities
  that the source computes are both defined and the first is strictly greater than the
  product of the second and 1.15, rounded to a double; when they are equal the answer is
  none. The first quantity is the variance of luminance over the central region, computed
  in doubles as the mean of the squares less the square of the mean. The second is the mean
  of the variances, computed in the same way, over the four strips that the source cuts,
  whose corners overlap. An undefined variance is the \<open>NaN\<close> of a region without pixels or
  with a pixel outside the data, which compares false.
\<close>

theorem naive_threshold_doubles:
  "(naiveDetection width height im \<noteq> None \<longleftrightarrow>
      (\<exists>c m. centralVariance64 width height im = Some c \<and>
             meanEdgeVariance64 width height im = Some m \<and> c > fl64 (m * fl64 1.15))) \<and>
   (\<forall>c m. centralVariance64 width height im = Some c \<and>
          meanEdgeVariance64 width height im = Some m \<and> c = fl64 (m * fl64 1.15)
      \<longrightarrow> naiveDetection width height im = None)"
  by (cases "centralVariance64 width height im"; cases "meanEdgeVariance64 width height im")
     (auto simp: naiveDetection_spec num_simps dbl_simps)

text \<open>
  On the uniform frame the computed central variance, \<open>2 ^ -55\<close>, is above the rounded
  product of the computed mean edge variance, \<open>2 ^ -56\<close>, and 1.15: a face. On the black
  frame both sides are 0, equal, and the answer is none.
\<close>

theorem naive_threshold_doubles_witness:
  "centralVariance64 5 5 uniformFrame = Some (1 / 2 ^ 55) \<and>
   meanEdgeVariance64 5 5 uniformFrame = Some (1 / 2 ^ 56) \<and>
   fl64 (1 / 2 ^ 56 * fl64 1.15) < 1 / 2 ^ 55 \<and>
   naiveDetection 5 5 uniformFrame \<noteq> None \<and>
   centralVariance64 5 5 (replicate 100 0) = Some 0 \<and>
   meanEdgeVariance64 5 5 (replicate 100 0) = Some 0 \<and>
   fl64 (0 * fl64 1.15) = 0 \<and>
   naiveDetection 5 5 (replicate 100 0) = None"
proof -
  have prod: "fl64 (1 / 72057594037927936 * fl64 1.15) < 1 / 36028797018963968"
    by (simp add: fl64_eval)
  then have "\<exists>c m. centralVariance64 5 5 uniformFrame = Some c \<and>
            meanEdgeVariance64 5 5 uniformFrame = Some m \<and> c > fl64 (m * fl64 1.15)"
    using uniform_doubles by blast
  then have uniform: "naiveDetection 5 5 uniformFrame \<noteq> None"
    using naive_threshold_doubles [of 5 5 uniformFrame] by blast
  have zero: "fl64 (0 * fl64 1.15) = 0" by (simp add: fl64_zero)
  then have "naiveDetection 5 5 (replicate 100 0) = None"
    using naive_threshold_doubles [of 5 5 "replicate 100 0"] black_doubles by metis
  with uniform prod zero show ?thesis
    by (simp add: black_doubles uniform_doubles)
qed

text \<open>
  Claim C5 as stated speaks of the variances themselves. On the uniform frame, 5 by 5
  pixels of the colour (1, 0, 0), every pixel has the luminance \<open>1 / 3\<close>: the variance is
  0 over the central region and over each of the four strips, so that the central
  variance is equal to 1.15 times the mean edge variance and not greater. The source
  answers with a box all the same: \<open>1 / 3\<close> is not a double, and the rounding errors of
  the nine sums of the central region leave a variance of \<open>2 ^ -55\<close> against \<open>2 ^ -56\<close> for
  the five sums of each strip.
\<close>

theorem naive_threshold_counterexample:
  "centralVariance 5 5 uniformFrame = Some 0 \<and>
   meanEdgeVariance 5 5 uniformFrame = Some 0 \<and>
   (0 :: rat) = 1.15 * 0 \<and>
   naiveDetection 5 5 uniformFrame =
     Some \<lparr>box_x = 1, box_y = 1, box_width = 3, box_height = 3\<rparr>"
  by (simp add: uniform_exact naive_uniform)

text \<open>
  Claim C7. A box that the naive fallback returns has a width and a height above zero
  and lies inside the frame: its left and top edges are not negative, its right edge is at
  most the width of the frame and its bottom edge at most the height. (The sides are
  floors of products rounded to doubles; a rounding adds at most one part in \<open>2 ^ 53\<close>.)
\<close>

theorem naive_box_inside:
  assumes "naiveDetection width height im = Some box"
  shows "0 < box_width box \<and> 0 < box_height box \<and> 0 \<le> box_x box \<and> 0 \<le> box_y box \<and>
         box_x box + box_width box \<le> of_nat width \<and>
         box_y box + box_height box \<le> of_nat height"
proof -
  define cx where "cx = \<lfloor>fl64 (of_nat width * fl64 0.2)\<rfloor>"
  define cy where "cy = \<lfloor>fl64 (of_nat height * fl64 0.2)\<rfloor>"
  define cw where "cw = \<lfloor>fl64 (of_nat width * fl64 0.6)\<rfloor>"
  define ch where "ch = \<lfloor>fl64 (of_nat height * fl64 0.6)\<rfloor>"
  from assms have gt: "num_gt (centralVariance64 width height im)
           (dbl_mul (meanEdgeVariance64 width height im) (Some (fl64 1.15)))"
    and box: "box = \<lparr>box_x = of_int cx, box_y = of_int cy,
                     box_width = of_int cw, box_height = of_int ch\<rparr>"
    unfolding cx_def cy_def cw_def ch_def
    by (auto simp: naiveDetection_spec split: if_splits)
  from gt obtain c where "centralVariance64 width height im = Some c"
    by (cases "centralVariance64 width height im") (auto simp: num_simps)
  then have pos: "0 < cw \<and> 0 < ch"
    unfolding centralVariance64_def cw_def ch_def by (rule luminance_variance64_Some)
  have x: "0 \<le> cx \<and> cx + cw \<le> int width"
    unfolding cx_def cw_def by (rule central_floors)
  have y: "0 \<le> cy \<and> cy + ch \<le> int height"
    unfolding cy_def ch_def by (rule central_floors)
  have "(of_int (cx + cw) :: rat) \<le> of_int (int width)"
    using x by (simp only: of_int_le_iff)
  moreover have "(of_int (cy + ch) :: rat) \<le> of_int (int height)"
    using y by (simp only: of_int_le_iff)
  ultimately show ?thesis
    using pos x y unfolding box by simp
qed

theorem naive_box_inside_witness:
  "naiveDetection 5 5 brightCentre =
     Some \<lparr>box_x = 1, box_y = 1, box_width = 3, box_height = 3\<rparr> \<and>
   (0::rat) < 3 \<and> (1::rat) + 3 \<le> of_nat 5"
  using naive_box_inside [OF naive_bright] by (simp add: naive_bright)




text \<open>
  Claim C9. When the naive fallback is what answers (no detector, or a detector that
  throws or finds no face), two calls of \<open>detectFaceBox\<close> on canvases of the same width,
  height and bytes, both origin-clean or both not, return the same, whatever else differs
  between the two calls: the fallback reads nothing but the width, the height and the
  bytes, and the arithmetic of doubles is a function of its operands.
\<close>

theorem naive_fallback_deterministic:
  assumes "cv_ctx cv1" and "cv_ctx cv2"
      and "cv_width cv1 = cv_width cv2" and "cv_height cv1 = cv_height cv2"
      and "cv_data cv1 = cv_data cv2" and "cv_clean cv1 = cv_clean cv2"
      and "\<not> faceDetector pf1 \<or> (\<forall>face faces. detect pf1 cv1 \<noteq> Inr (face # faces))"
      and "\<not> faceDetector pf2 \<or> (\<forall>face faces. detect pf2 cv2 \<noteq> Inr (face # faces))"
  shows "detectFaceBox pf1 cv1 = detectFaceBox pf2 cv2"
proof -
  have fallback: "detectFaceBox pf cv =
      (case getImageData cv of Inl err \<Rightarrow> Inl err
       | Inr img \<Rightarrow> Inr (naiveDetection (img_width img) (img_height img) (img_data img)))"
    if "cv_ctx cv" "\<not> faceDetector pf \<or> (\<forall>face faces. detect pf cv \<noteq> Inr (face # faces))"
    for pf cv
    using that by (auto simp: detectFaceBox_def split: sum.splits list.splits)
  have "getImageData cv1 = getImageData cv2"
    using assms(1-6) by (simp add: getImageData_def)
  then show ?thesis
    using fallback [OF assms(1,7)] fallback [OF assms(2,8)] by simp
qed

theorem naive_fallback_deterministic_witness:
  "detectFaceBox blackVideo blackCanvas = detectFaceBox throwingDetector blackCanvas \<and>
   cv_ctx blackCanvas \<and> \<not> faceDetector blackVideo \<and> faceDetector throwingDetector \<and>
   detect throwingDetector blackCanvas = Inl DetectorFailure"
  using naive_fallback_deterministic [of blackCanvas blackCanvas blackVideo throwingDetector]
  by (simp add: blackCanvas_def blackVideo_def throwingDetector_def)

subsection \<open>Head turns\<close>

text \<open>
  Claim C4, amended. Let \<open>box1\<close> and \<open>box2\<close> be what \<open>detectFaceBox\<close> finds in the two
  samples of \<open>checkMovement\<close>, taken 700 ms apart, and \<open>dx\<close> the double nearest to
  \<open>x2 - x1\<close>, which is what the subtraction of the source gives. The check for a turn to
  the left succeeds exactly when both samples have a box and \<open>dx\<close> is below \<open>-10\<close>; the
  check for a turn to the right exactly when both have a box and \<open>dx\<close> is above \<open>10\<close>. With
  a sample without a box, or with \<open>dx\<close> equal to \<open>-10\<close> or \<open>10\<close>, both checks fail, and no
  pair of samples passes both checks. When \<open>x2 - x1\<close> is itself a double, as it is for
  boxes at whole pixels of a canvas, \<open>dx\<close> is that difference.
\<close>

theorem checkMovement_displacement_doubles:
  assumes "detectFaceBox pf (cnv (capture pf s)) = Inr box1"
      and "detectFaceBox pf (cnv (capture pf (wait pf 700 (capture pf s)))) = Inr box2"
  shows "\<exists>vl vr s'.
           checkMovement pf Left s = Inr (vl, s') \<and> checkMovement pf Right s = Inr (vr, s') \<and>
           (vl \<longleftrightarrow> (\<exists>b1 b2. box1 = Some b1 \<and> box2 = Some b2 \<and>
                           fl64 (box_x b2 - box_x b1) < - 10)) \<and>
           (vr \<longleftrightarrow> (\<exists>b1 b2. box1 = Some b1 \<and> box2 = Some b2 \<and>
                           fl64 (box_x b2 - box_x b1) > 10)) \<and>
           (box1 = None \<or> box2 = None \<longrightarrow> \<not> vl \<and> \<not> vr) \<and>
           (\<forall>b1 b2. box1 = Some b1 \<and> box2 = Some b2 \<and> \<bar>fl64 (box_x b2 - box_x b1)\<bar> = 10
              \<longrightarrow> \<not> vl \<and> \<not> vr) \<and>
           (\<forall>b1 b2. box1 = Some b1 \<and> box2 = Some b2 \<and>
                    fl64 (box_x b2 - box_x b1) = box_x b2 - box_x b1
              \<longrightarrow> (vl \<longleftrightarrow> box_x b2 - box_x b1 < - 10) \<and> (vr \<longleftrightarrow> box_x b2 - box_x b1 > 10)) \<and>
           \<not> (vl \<and> vr)"
  using assms
  by (cases box1; cases box2) (auto simp: checkMovement_def Let_def)

text \<open>
  The scenario of the specification: a box at (100, 50, 200, 200), then at
  (80, 50, 200, 200): the turn to the left is seen (\<open>dx = -20\<close>), a turn to the right is not.
\<close>

theorem checkMovement_displacement_doubles_witness:
  "fl64 (80 - 100) = 80 - 100 \<and>
   (\<exists>s'. checkMovement turningHead Left atStart = Inr (True, s') \<and>
          checkMovement turningHead Right atStart = Inr (False, s'))"
proof -
  have dx: "fl64 (80 - 100) = 80 - 100" by (simp add: fl64_eval)
  then show ?thesis
    using checkMovement_displacement_doubles [OF turningHead_first turningHead_second]
    by auto
qed

text \<open>
  Claim C4 as stated has the check for a turn to the right succeed whenever \<open>x2 - x1\<close> is
  above 10. With a first box at the double that \<^verbatim>\<open>0.3\<close> denotes and a second at the double
  that \<^verbatim>\<open>10.3\<close> denotes, \<open>x2 - x1\<close> is above 10 by less than \<open>2 ^ -50\<close>; the subtraction of
  the source rounds it to 10 and the check fails.
\<close>

theorem checkMovement_displacement_counterexample:
  "detectFaceBox slidingHead (cnv (capture slidingHead atStart)) =
     Inr (Some \<lparr>box_x = 5404319552844595 / 18014398509481984, box_y = 50,
                 box_width = 200, box_height = 200\<rparr>) \<and>
   detectFaceBox slidingHead
     (cnv (capture slidingHead (wait slidingHead 700 (capture slidingHead atStart)))) =
     Inr (Some \<lparr>box_x = 2899192260119757 / 281474976710656, box_y = 50,
                 box_width = 200, box_height = 200\<rparr>) \<and>
   (2899192260119757 / 281474976710656 - 5404319552844595 / 18014398509481984 :: rat) > 10 \<and>
   checkMovement slidingHead Right atStart =
     Inr (False, capture slidingHead (wait slidingHead 700 (capture slidingHead atStart)))"
  by (simp add: checkMovement_def Let_def slidingHead_first slidingHead_second fl64_eval)

subsection \<open>Blinks\<close>

text \<open>
  Claim C6. \<open>checkBlink\<close> takes three samples 140 ms apart. When the first has a face
  box, the check returns whether the larger of two fractions exceeds 6%: the fraction of
  the pixels of the eye band of that box that have changed between samples 1 and 2, and
  the same between samples 2 and 3. The eye band is the band of the box that starts a
  quarter of its height below its top and is a quarter of its height high, the quarter
  and the row where the band starts being rounded to doubles before the whole pixels are
  taken; it is the band of the exact quarters when these are doubles, as they are for a
  box at whole pixels of a canvas. A pixel has changed when the absolute differences of
  its R, G and B, averaged, exceed 18. So the check returns true when the fraction between
  samples 1 and 2 exceeds 6%. When the three samples leave the same canvas the check
  returns false.
\<close>

theorem checkBlink_eye_band:
  "(let s1 = capture pf s; s2 = capture pf (wait pf 140 s1); s3 = capture pf (wait pf 140 s2)
    in (\<forall>box a b c.
          detectFaceBox pf (cnv s1) = Inr (Some box) \<and>
          getImageData (cnv s1) = Inr a \<and> getImageData (cnv s2) = Inr b \<and>
          getImageData (cnv s3) = Inr c
          \<longrightarrow> checkBlink pf s =
                Inr (max (changedFraction a b (eyeBand64 box))
                         (changedFraction b c (eyeBand64 box)) > 0.06, s3) \<and>
              (changedFraction a b (eyeBand64 box) > 0.06
                 \<longrightarrow> checkBlink pf s = Inr (True, s3))) \<and>
       (cnv s1 = cnv s2 \<and> cnv s2 = cnv s3 \<longrightarrow> (\<exists>s'. checkBlink pf s = Inr (False, s'))) \<and>
       (\<forall>box. fl64 (box_height box / 4) = box_height box / 4 \<and>
              fl64 (box_y box + box_height box / 4) = box_y box + box_height box / 4
          \<longrightarrow> eyeBand64 box = eyeBand box))"
proof -
  let ?s1 = "capture pf s"
  let ?s2 = "capture pf (wait pf 140 ?s1)"
  let ?s3 = "capture pf (wait pf 140 ?s2)"
  have same: "\<exists>s'. checkBlink pf s = Inr (False, s')" if eq: "cnv ?s1 = cnv ?s2" "cnv ?s2 = cnv ?s3"
  proof -
    obtain b1 where b1: "detectFaceBox pf (cnv ?s1) = Inr b1"
      using detect_capture by blast
    show ?thesis
    proof (cases b1)
      case None
      with b1 show ?thesis by (simp add: checkBlink_def)
    next
      case (Some box)
      from b1 Some have "cv_ctx (cnv ?s1)" by (auto dest: detectFaceBox_Some_ctx)
      then have "cv_ctx (cnv s)" by (simp add: cnv_ctx_capture)
      then obtain a where a: "getImageData (cnv ?s1) = Inr a"
        using getImageData_capture by blast
      have "checkBlink pf s =
              Inr (max (changedFraction a a (eyeBand64 box))
                       (changedFraction a a (eyeBand64 box)) > 0.06, ?s3)"
        using b1 Some a eq by (intro checkBlink_scores) simp_all
      then show ?thesis by (simp add: changedFraction_same)
    qed
  qed
  show ?thesis
    unfolding Let_def
  proof (intro conjI allI impI)
    fix box a b c
    assume h: "detectFaceBox pf (cnv ?s1) = Inr (Some box) \<and>
          getImageData (cnv ?s1) = Inr a \<and> getImageData (cnv ?s2) = Inr b \<and>
          getImageData (cnv ?s3) = Inr c"
    then show eq: "checkBlink pf s =
        Inr (max (changedFraction a b (eyeBand64 box))
                 (changedFraction b c (eyeBand64 box)) > 0.06, ?s3)"
      by (intro checkBlink_scores) blast+
    assume "changedFraction a b (eyeBand64 box) > 0.06"
    then have "max (changedFraction a b (eyeBand64 box))
                   (changedFraction b c (eyeBand64 box)) > 0.06"
      by (simp add: less_max_iff_disj)
    with eq show "checkBlink pf s = Inr (True, ?s3)" by simp
  next
    assume "cnv ?s1 = cnv ?s2 \<and> cnv ?s2 = cnv ?s3"
    then show "\<exists>s'. checkBlink pf s = Inr (False, s')" using same by blast
  next
    fix box :: FaceBox
    assume "fl64 (box_height box / 4) = box_height box / 4 \<and>
            fl64 (box_y box + box_height box / 4) = box_y box + box_height box / 4"
    then show "eyeBand64 box = eyeBand box" by (intro eyeBand64_exact) blast+
  qed
qed

text \<open>
  On \<open>liveFace\<close> the face box is one pixel wide and four high: its eye band is the pixel
  of the second row. That pixel changes between samples 1 and 2, a fraction of 1; on
  \<open>stillFace\<close> the three frames are the same.
\<close>

theorem checkBlink_eye_band_witness:
  "eyeBand64 \<lparr>box_x = 0, box_y = 0, box_width = 1, box_height = 4\<rparr> = [(1, 0)] \<and>
   eyeBand \<lparr>box_x = 0, box_y = 0, box_width = 1, box_height = 4\<rparr> = [(1, 0)] \<and>
   fl64 (4 / 4) = 4 / 4 \<and> fl64 (0 + 4 / 4) = 0 + 4 / 4 \<and>
   changedFraction frameA frameB [(1, 0)] > 0.06 \<and>
   checkBlink liveFace atStart =
     Inr (True, capture liveFace (wait liveFace 140
                  (capture liveFace (wait liveFace 140 (capture liveFace atStart))))) \<and>
   (\<exists>s'. checkBlink stillFace atStart = Inr (False, s'))"
  using checkBlink_eye_band [of liveFace atStart] checkBlink_eye_band [of stillFace atStart]
    liveFace_box liveFace_frames stillFace_frames
  by (simp add: Let_def liveFace_band fraction_AB fl64_one)

text \<open>
  Claim C10. When \<open>detectFaceBox\<close> finds no box in the first sample of \<open>checkBlink\<close>, the
  check returns \<open>False\<close> in the state that the first capture left: no timer was armed (the
  clock has not moved), no second or third frame was captured, and no comparison of box
  sizes was tried.
\<close>

theorem checkBlink_no_first_box:
  assumes "detectFaceBox pf (cnv (capture pf s)) = Inr None"
  shows "checkBlink pf s = Inr (False, capture pf s) \<and> now (capture pf s) = now s"
  using assms by (simp add: checkBlink_def now_capture)

theorem checkBlink_no_first_box_witness:
  "checkBlink blackVideo atStart = Inr (False, capture blackVideo atStart) \<and>
   now (capture blackVideo atStart) = 0"
  using checkBlink_no_first_box [of blackVideo atStart] blackVideo_none [of 0]
  by (simp add: cnv_capture atStart_def)

end
